theory Spec2Isabelle
  imports Complex_Main "HOL-Library.Log_Nat"
begin

section \<open>The practice component of src/components/Metronome.tsx\<close>

text \<open>
  The file holds two React components; the second one, \<open>KaraokePractice\<close>, grades a live
  pitch against a score and steps a cursor through it. Its functions are embedded here as
  HOL functions over an explicit record of the component's state (React state variables and
  refs alike). A callback returns the state it leaves. It reads refs from the state it is
  handed; the state variables it reads are those of the render in which \<open>useCallback\<close>
  last memoised it, and they are a separate argument, a \<open>render\<close>.

  A JavaScript number is a \<open>jsnum\<close>: a finite value, one of the two infinities, or
  NaN. The two purely numeric functions whose properties range over all numbers,
  \<open>normalizeCents\<close> and \<open>secondsPerBeat\<close>, compute on \<open>jsnum\<close> with every result
  rounded to the nearest double. In the state of the component, times, tempi and cents are
  finite throughout and are \<open>real\<close>, with exact arithmetic; the fields of a score
  element, which the MusicXML reader builds with \<open>parseInt\<close>, are \<open>int\<close>.
\<close>

subsection \<open>Numbers\<close>

datatype jsnum = Fin real | PosInf | NegInf | NaN

text \<open>
  Rounding to the nearest double, ties to the even significand. \<open>ulp x\<close> is the spacing
  of the doubles around \<open>x\<close>: with \<open>2 ^ e \<le> \<bar>x\<bar> < 2 ^ (e + 1)\<close> it is
  \<open>2 ^ (e - 52)\<close>, and \<open>2 ^ - 1074\<close> below the normal range. The exponent is read off
  the bit length of \<open>\<bar>x\<bar>\<close> scaled by \<open>2 ^ 1074\<close>. A result of magnitude \<open>2 ^ 1024\<close> or
  more is an infinity. The sign of zero is not kept.
\<close>

definition roundHalfEven :: "real \<Rightarrow> int" where
  "roundHalfEven x =
     (let f = \<lfloor>x\<rfloor>; d = x - of_int f
      in if d < 1 / 2 then f
         else if d > 1 / 2 then f + 1
         else if even f then f else f + 1)"

definition ulp :: "real \<Rightarrow> real" where
  "ulp x = 2 ^ (max (floorlog 2 (nat \<lfloor>\<bar>x\<bar> * 2 ^ 1074\<rfloor>) - 1) 52 - 52) / 2 ^ 1074"

definition fl :: "real \<Rightarrow> jsnum" where
  "fl x =
     (let r = of_int (roundHalfEven (x / ulp x)) * ulp x
      in if r \<ge> 2 ^ 1024 then PosInf
         else if r \<le> - (2 ^ 1024) then NegInf
         else Fin r)"

text \<open>
  \<open>n + c\<close> and \<open>n - c\<close> for a finite constant \<open>c\<close>, and the comparisons \<open>n > c\<close> and
  \<open>n <= c\<close>, which are false for NaN.
\<close>

definition js_add :: "jsnum \<Rightarrow> real \<Rightarrow> jsnum" where
  "js_add n c =
     (case n of
        Fin a \<Rightarrow> fl (a + c)
      | PosInf \<Rightarrow> PosInf
      | NegInf \<Rightarrow> NegInf
      | NaN \<Rightarrow> NaN)"

definition js_gt :: "jsnum \<Rightarrow> real \<Rightarrow> bool" where
  "js_gt n c = (case n of Fin a \<Rightarrow> a > c | PosInf \<Rightarrow> True | NegInf \<Rightarrow> False | NaN \<Rightarrow> False)"

definition js_le :: "jsnum \<Rightarrow> real \<Rightarrow> bool" where
  "js_le n c = (case n of Fin a \<Rightarrow> a \<le> c | PosInf \<Rightarrow> False | NegInf \<Rightarrow> True | NaN \<Rightarrow> False)"

subsection \<open>Score elements and the grading threshold\<close>

record MusicalElement =
  midi :: int
  accidental :: "int option"
  dynamic :: "string option"
  articulation :: "string option"
  position :: "int option"
  string :: "string option"

definition correctDuringTransportCents :: int where
  "correctDuringTransportCents = 20"

text \<open>
  \<open>getGradingThreshold\<close>, lines 303-335. The argument is \<open>None\<close> for \<open>null\<close> and for the
  \<open>undefined\<close> of an out-of-range read of the sequence. \<open>Math.floor(midi / 12)\<close> is
  \<open>div\<close> on \<open>int\<close>, which rounds down. The successive assignments to
  \<open>baseThreshold\<close> are successive bindings \<open>b0\<close> ... \<open>b4\<close>.
\<close>

definition getGradingThreshold :: "MusicalElement option \<Rightarrow> int" where
  "getGradingThreshold element =
     (case element of
        None \<Rightarrow> correctDuringTransportCents
      | Some e \<Rightarrow>
          (let octave = midi e div 12 - 1;
               b0 = (if octave \<ge> 6 then 35
                     else if octave \<ge> 5 then 30
                     else if octave \<le> 3 then 25
                     else correctDuringTransportCents);
               b1 = (if accidental e \<noteq> None \<and> accidental e \<noteq> Some 0 then b0 + 5 else b0);
               b2 = (case position e of
                       None \<Rightarrow> b1
                     | Some p \<Rightarrow> if p \<noteq> 0 \<and> p > 1 then b1 + (p - 1) * 3 else b1);
               b3 = (if string e = Some ''E'' then b2 + 3 else b2);
               b4 = (if articulation e = Some ''staccato'' then b3 + 2 else b3)
           in min 50 b4))"

subsection \<open>Tempo\<close>

text \<open>\<open>sanitizeBpm\<close>, lines 369-372, and the memoised \<open>secondsPerBeat\<close>, line 373.\<close>

definition sanitizeBpm :: "jsnum \<Rightarrow> int" where
  "sanitizeBpm raw =
     (case raw of
        Fin r \<Rightarrow> min 240 (max 20 \<lfloor>r\<rfloor>)
      | PosInf \<Rightarrow> 80
      | NegInf \<Rightarrow> 80
      | NaN \<Rightarrow> 80)"

definition secondsPerBeat :: "jsnum \<Rightarrow> jsnum" where
  "secondsPerBeat currentBpm_raw = fl (60 / of_int (sanitizeBpm currentBpm_raw))"

subsection \<open>The OSMD cursor and the sheet\<close>

text \<open>
  The score cursor belongs to the OpenSheetMusicDisplay library, which is not part of the
  repository. Its operations are a parameter of the model: a record of functions over an
  arbitrary type \<open>'c\<close> of cursor states. \<open>notesUnderCursor\<close> gives, for each note under
  the cursor, what \<open>midiFromGraphicalNote\<close> reads from it; \<open>currentMeasureIndex\<close> is
  \<open>Iterator.CurrentMeasureIndex || 0\<close>; \<open>currentTimeStamp\<close> is \<open>getTimestampReal\<close> of
  \<open>Iterator.CurrentTimeStamp\<close>. \<open>cursor.show()\<close> only draws and is left out.
\<close>

record 'c osmd_cursor =
  cursor_reset :: "'c \<Rightarrow> 'c"
  cursor_next :: "'c \<Rightarrow> 'c"
  endReached :: "'c \<Rightarrow> bool"
  currentMeasureIndex :: "'c \<Rightarrow> int"
  currentTimeStamp :: "'c \<Rightarrow> real option"
  notesUnderCursor :: "'c \<Rightarrow> int option list"

text \<open>
  One \<open>VerticalStaffEntryContainer\<close> of a source measure: its timestamp as
  \<open>getTimestampReal\<close> reads it, and the number of notes of each of its staff entries.
\<close>

record vsec =
  vc_timestamp :: "real option"
  vc_staffEntryNotes :: "nat list"

subsection \<open>Component state\<close>

datatype kind = Correct | Incorrect | Missed

text \<open>
  \<open>osmdRef.current\<close> and its \<open>cursor\<close>: no display yet, a display without a cursor, or a
  display with its cursor.
\<close>

datatype 'c osmd_ref = NoOsmd | NoCursor | Cursor 'c

record Mark =
  mark_x :: real
  mark_y :: real
  kind :: kind

text \<open>
  The status line. The two messages that \<open>jumpToMeasure\<close> formats keep their arguments
  (the measure number, and the MIDI number that \<open>midiToName\<close> prints).
\<close>

datatype status_msg =
    StatusText string
  | StartingPointSet int int
  | CouldNotDetermineNote int

text \<open>
  \<open>targetInfo\<close> keeps the \<open>midi\<close> field only: \<open>hz\<close> and \<open>name\<close> are
  \<open>midiToFrequency\<close> and \<open>midiToName\<close> of it wherever the component sets them.
  \<open>schedulerId\<close> holds the time at which the pending \<open>setTimeout\<close> is due
  (milliseconds on the clock of \<open>performance.now()\<close>), \<open>None\<close> when no timer is pending.
  \<open>stableForMs\<close> is the \<open>t\<close> field of \<open>listen._stableForMsRef\<close>.
  \<open>noteMarks\<close> stands for the state variable and the ref, which are written together.
\<close>

record 'c practice =
  status :: status_msg
  targetInfo :: "int option"
  firstNoteMidi :: "int option"
  currentStepIndex :: nat
  scoreMidiSequence :: "MusicalElement list"
  bpm :: real
  isTransportRunning :: bool
  awaitingFirstCorrect :: bool
  dynamicTempoEnabled :: bool
  currentBpm :: real
  measureNumber :: int
  currentMeasure :: int
  schedulerId :: "real option"
  isTransportRunningRef :: bool
  awaitingFirstCorrectRef :: bool
  windowHadAccurate :: bool
  windowHadAnyPitch :: bool
  lastTargetMidi :: "int option"
  consecutiveErrors :: nat
  lastErrorTime :: real
  noteMarks :: "Mark list"
  stableForMs :: real
  osmdRef :: "'c osmd_ref"
  sourceMeasures :: "vsec list list option"

text \<open>
  The state variables that the callbacks below read, as one render of the component holds
  them. \<open>updateDynamicTempo\<close> lists all it reads among its dependencies (line 367), so
  the one that \<open>startTransport\<close> and its \<open>step\<close> hold sees the render in which
  \<open>startTransport\<close> was memoised; \<open>startTransport\<close> depends on \<open>isTransportRunning\<close>,
  \<open>secondsPerBeat\<close> and \<open>stopTransport\<close> only (line 1137), and \<open>listen\<close> does not depend
  on \<open>targetInfo\<close> (line 1336).
\<close>

record render =
  r_isTransportRunning :: bool
  r_dynamicTempoEnabled :: bool
  r_bpm :: real
  r_currentBpm :: real
  r_targetInfo :: "int option"

text \<open>The render that shows a given state: a callback memoised in it is up to date.\<close>

definition viewOf :: "'c practice \<Rightarrow> render" where
  "viewOf s =
     \<lparr>r_isTransportRunning = isTransportRunning s,
      r_dynamicTempoEnabled = dynamicTempoEnabled s,
      r_bpm = bpm s,
      r_currentBpm = currentBpm s,
      r_targetInfo = targetInfo s\<rparr>"

definition a4FrequencyHz :: real where
  "a4FrequencyHz = 440"

text \<open>The literal \<open>0.6\<close> is the double nearest to 6/10, a little below it.\<close>

definition clarityThreshold :: real where
  "clarityThreshold = 5404319552844595 / 2 ^ 53"

definition VIOLIN_MIN_MIDI :: int where
  "VIOLIN_MIN_MIDI = 55"

definition VIOLIN_MAX_MIDI :: int where
  "VIOLIN_MAX_MIDI = 100"

subsection \<open>Pitch\<close>

definition computeCentsOffset :: "real \<Rightarrow> real \<Rightarrow> real" where
  "computeCentsOffset frequencyHz targetHz = 1200 * log 2 (frequencyHz / targetHz)"

definition midiToFrequency :: "int \<Rightarrow> real \<Rightarrow> real" where
  "midiToFrequency m a4 = a4 * 2 powr ((of_int m - 69) / 12)"

text \<open>
  \<open>normalizeCents\<close>, lines 209-215: the two \<open>while\<close> statements, one after the other.
  An iteration that does not end has no result, \<open>None\<close>.
\<close>

partial_function (option) normalizeCents_down :: "jsnum \<Rightarrow> jsnum option" where
  "normalizeCents_down n =
     (if js_gt n 600 then normalizeCents_down (js_add n (- 1200)) else Some n)"

partial_function (option) normalizeCents_up :: "jsnum \<Rightarrow> jsnum option" where
  "normalizeCents_up n =
     (if js_le n (- 600) then normalizeCents_up (js_add n 1200) else Some n)"

definition normalizeCents :: "jsnum \<Rightarrow> jsnum option" where
  "normalizeCents cents =
     (case normalizeCents_down cents of
        None \<Rightarrow> None
      | Some n \<Rightarrow> normalizeCents_up n)"

subsection \<open>Dynamic tempo\<close>

text \<open>
  \<open>updateDynamicTempo\<close>, lines 339-367. \<open>now\<close> is the value of \<open>performance.now()\<close>.
  \<open>dynamicTempoEnabled\<close>, \<open>currentBpm\<close> and \<open>bpm\<close> are those of the render \<open>v\<close> that
  the callback holds; the two counters are refs; \<open>setCurrentBpm\<close> is the assignment to
  \<open>currentBpm\<close> of the state.
\<close>

definition updateDynamicTempo :: "render \<Rightarrow> bool \<Rightarrow> real \<Rightarrow> 'c practice \<Rightarrow> 'c practice" where
  "updateDynamicTempo v wasAccurate now s =
     (if \<not> r_dynamicTempoEnabled v then s
      else if \<not> wasAccurate then
        (let s1 = s\<lparr>consecutiveErrors := consecutiveErrors s + 1\<rparr>;
             s2 = s1\<lparr>lastErrorTime := now\<rparr>
         in if consecutiveErrors s2 \<ge> 2
            then (let newBpm = max 40 (r_currentBpm v - 8) in s2\<lparr>currentBpm := newBpm\<rparr>)
            else s2)
      else
        (let s1 = s\<lparr>consecutiveErrors := 0\<rparr>
         in if now - lastErrorTime s1 > 5000
            then (let newBpm = min (r_bpm v) (r_currentBpm v + 2)
                  in if newBpm \<noteq> r_currentBpm v then s1\<lparr>currentBpm := newBpm\<rparr> else s1)
            else s1))"

subsection \<open>Transport\<close>

text \<open>\<open>ensureCursorOnNote\<close>, lines 848-857; the counter is the number of rounds left.\<close>

fun ensureCursorOnNote_loop :: "'c osmd_cursor \<Rightarrow> nat \<Rightarrow> 'c \<Rightarrow> 'c" where
  "ensureCursorOnNote_loop ops 0 c = c"
| "ensureCursorOnNote_loop ops (Suc guard) c =
     (if notesUnderCursor ops c \<noteq> [] then c
      else if endReached ops c then c
      else ensureCursorOnNote_loop ops guard (cursor_next ops c))"

definition ensureCursorOnNote :: "'c osmd_cursor \<Rightarrow> 'c \<Rightarrow> 'c" where
  "ensureCursorOnNote ops c = ensureCursorOnNote_loop ops 16 c"

text \<open>\<open>stopTransport\<close>, lines 1040-1051.\<close>

definition stopTransport :: "'c practice \<Rightarrow> 'c practice" where
  "stopTransport s = s\<lparr>schedulerId := None, isTransportRunning := False, isTransportRunningRef := False\<rparr>"

text \<open>
  \<open>window.setTimeout(step, secondsPerBeat * 1000)\<close> called at time \<open>now\<close>: the timer is
  due \<open>secondsPerBeat * 1000\<close> milliseconds later. \<open>spb\<close> is the \<open>secondsPerBeat\<close> that
  the callback holds.
\<close>

definition setTimeout_step :: "real \<Rightarrow> real \<Rightarrow> 'c practice \<Rightarrow> 'c practice" where
  "setTimeout_step spb now s = s\<lparr>schedulerId := Some (now + spb * 1000)\<rparr>"

text \<open>
  The \<open>step\<close> callback of \<open>startTransport\<close>, lines 1071-1135, run at time \<open>now\<close>.
  \<open>markPos\<close> is the position computed from the two bounding rectangles, \<open>None\<close> when
  the container or the cursor element is missing. The callback is only ever armed with a
  cursor at hand, so without one the model leaves the state alone. \<open>v\<close> is the render that
  \<open>startTransport\<close> held when it made this callback; its \<open>updateDynamicTempo\<close> is of
  that render too.
\<close>

definition step :: "'c osmd_cursor \<Rightarrow> render \<Rightarrow> real \<Rightarrow> real \<Rightarrow> (real \<times> real) option \<Rightarrow> 'c practice \<Rightarrow> 'c practice" where
  "step ops v spb now markPos s =
     (case osmdRef s of
        NoOsmd \<Rightarrow> s
      | NoCursor \<Rightarrow> s
      | Cursor c \<Rightarrow>
          if endReached ops c then stopTransport s
          else
            (let seq = scoreMidiSequence s;
                 s1 = (case markPos of
                         None \<Rightarrow> s
                       | Some (x, y) \<Rightarrow>
                           (let wasAccurate = windowHadAccurate s;
                                k = (if wasAccurate then Correct
                                     else if windowHadAnyPitch s then Incorrect
                                     else Missed);
                                next = noteMarks s @ [\<lparr>mark_x = x, mark_y = y, kind = k\<rparr>]
                            in updateDynamicTempo v wasAccurate now (s\<lparr>noteMarks := next\<rparr>)));
                 s2 = s1\<lparr>windowHadAccurate := False, windowHadAnyPitch := False\<rparr>
             in if length seq > 0 then
                  (let nextIdx = currentStepIndex s2 + 1
                   in if nextIdx < length seq then
                        (let element = seq ! nextIdx;
                             s3 = s2\<lparr>currentStepIndex := nextIdx,
                                     lastTargetMidi := Some (midi element),
                                     targetInfo := Some (midi element),
                                     osmdRef := Cursor (ensureCursorOnNote ops (cursor_next ops c))\<rparr>
                         in setTimeout_step spb now s3)
                      else stopTransport s2)
                else setTimeout_step spb now s2))"

text \<open>
  \<open>startTransport\<close>, lines 1053-1137, called at time \<open>now\<close>. \<open>isTransportRunning\<close>,
  \<open>dynamicTempoEnabled\<close> and \<open>bpm\<close> are those of the render \<open>v\<close> that the callback holds.
\<close>

definition startTransport :: "'c osmd_cursor \<Rightarrow> render \<Rightarrow> real \<Rightarrow> real \<Rightarrow> 'c practice \<Rightarrow> 'c practice" where
  "startTransport ops v spb now s =
     (if r_isTransportRunning v then s
      else case osmdRef s of
        NoOsmd \<Rightarrow> s
      | NoCursor \<Rightarrow> s
      | Cursor c \<Rightarrow>
          (let s1 = s\<lparr>isTransportRunning := True, isTransportRunningRef := True\<rparr>;
               s2 = (if r_dynamicTempoEnabled v
                     then s1\<lparr>currentBpm := r_bpm v, consecutiveErrors := 0, lastErrorTime := 0\<rparr>
                     else s1);
               s3 = s2\<lparr>osmdRef := Cursor (ensureCursorOnNote ops c)\<rparr>
           in setTimeout_step spb now s3))"

subsection \<open>Listening\<close>

text \<open>
  One round of the \<open>tick\<close> loop of \<open>listen\<close>, lines 1244-1330, for the pitch and clarity
  that the detector reports. The round also refreshes the pitch display and the colour of
  the cursor; no function reads either, and they are left out of the state. The round
  belongs to one call of \<open>listen\<close>: \<open>lv\<close> is the render which that \<open>listen\<close> holds, and
  \<open>sv\<close> the render held by the \<open>startTransport\<close> that it calls.
\<close>

record sample =
  freq :: jsnum
  clarity :: real

definition hasPitch :: "sample \<Rightarrow> bool" where
  "hasPitch smp =
     (case freq smp of
        Fin f \<Rightarrow> clarity smp \<ge> clarityThreshold \<and> f \<ge> 180 \<and> f \<le> 2800
      | PosInf \<Rightarrow> False
      | NegInf \<Rightarrow> False
      | NaN \<Rightarrow> False)"

text \<open>The notes that \<open>selectPrimaryNoteFromArray\<close> and \<open>selectPreferredNote\<close> keep.\<close>

definition candidates :: "int option list \<Rightarrow> int list" where
  "candidates notes =
     List.map_filter
       (\<lambda>n. case n of
              None \<Rightarrow> None
            | Some m \<Rightarrow> if m \<ge> VIOLIN_MIN_MIDI \<and> m \<le> VIOLIN_MAX_MIDI then Some m else None)
       notes"

text \<open>
  The head of the candidates after the (stable) sort by descending pitch, and after the
  sort by distance to the preferred pitch: the first one among equals.
\<close>

fun highestMidi :: "int list \<Rightarrow> int option" where
  "highestMidi [] = None"
| "highestMidi (m # ms) =
     (case highestMidi ms of None \<Rightarrow> Some m | Some b \<Rightarrow> if b > m then Some b else Some m)"

fun closestMidi :: "int \<Rightarrow> int list \<Rightarrow> int option" where
  "closestMidi p [] = None"
| "closestMidi p (m # ms) =
     (case closestMidi p ms of
        None \<Rightarrow> Some m
      | Some b \<Rightarrow> if \<bar>b - p\<bar> < \<bar>m - p\<bar> then Some b else Some m)"

definition selectPrimaryNoteFromArray :: "int option list \<Rightarrow> int option" where
  "selectPrimaryNoteFromArray notes = highestMidi (candidates notes)"

definition selectPreferredNote :: "int option list \<Rightarrow> int option \<Rightarrow> int option" where
  "selectPreferredNote notes preferredMidi =
     (case preferredMidi of
        Some p \<Rightarrow> closestMidi p (candidates notes)
      | None \<Rightarrow> highestMidi (candidates notes))"

definition midiSeqTarget :: "'c practice \<Rightarrow> MusicalElement option" where
  "midiSeqTarget s =
     (if currentStepIndex s < length (scoreMidiSequence s)
      then Some (scoreMidiSequence s ! currentStepIndex s)
      else None)"

definition effectiveMidi :: "'c osmd_cursor \<Rightarrow> render \<Rightarrow> 'c practice \<Rightarrow> int option" where
  "effectiveMidi ops lv s =
     (if isTransportRunningRef s then
        (case midiSeqTarget s of Some e \<Rightarrow> Some (midi e) | None \<Rightarrow> lastTargetMidi s)
      else
        (let idle =
               (case osmdRef s of
                  Cursor c \<Rightarrow>
                    selectPreferredNote (notesUnderCursor ops c)
                      (case r_targetInfo lv of Some m \<Rightarrow> Some m | None \<Rightarrow> lastTargetMidi s)
                | NoCursor \<Rightarrow> None
                | NoOsmd \<Rightarrow> None)
         in case idle of Some m \<Rightarrow> Some m | None \<Rightarrow> lastTargetMidi s))"

definition gatingTargetHz :: "'c osmd_cursor \<Rightarrow> render \<Rightarrow> 'c practice \<Rightarrow> real option" where
  "gatingTargetHz ops lv s =
     (case effectiveMidi ops lv s of
        Some m \<Rightarrow> Some (midiToFrequency m a4FrequencyHz)
      | None \<Rightarrow> None)"

definition rawCents :: "'c osmd_cursor \<Rightarrow> render \<Rightarrow> sample \<Rightarrow> 'c practice \<Rightarrow> real option" where
  "rawCents ops lv smp s =
     (case freq smp of
        Fin f \<Rightarrow>
          (case gatingTargetHz ops lv s of
             Some hz \<Rightarrow> if hasPitch smp \<and> hz \<noteq> 0 then Some (computeCentsOffset f hz) else None
           | None \<Rightarrow> None)
      | PosInf \<Rightarrow> None
      | NegInf \<Rightarrow> None
      | NaN \<Rightarrow> None)"

text \<open>\<open>rawCents != null && Math.abs(rawCents) <= threshold\<close>\<close>

definition withinThreshold :: "real option \<Rightarrow> int \<Rightarrow> bool" where
  "withinThreshold cents threshold =
     (case cents of None \<Rightarrow> False | Some c \<Rightarrow> \<bar>c\<bar> \<le> of_int threshold)"

text \<open>The test \<open>isAccurate\<close> of line 1313.\<close>

definition isAccurate :: "'c osmd_cursor \<Rightarrow> render \<Rightarrow> sample \<Rightarrow> 'c practice \<Rightarrow> bool" where
  "isAccurate ops lv smp s =
     (awaitingFirstCorrectRef s
      \<and> withinThreshold (rawCents ops lv smp s) (getGradingThreshold (midiSeqTarget s))
      \<and> (case gatingTargetHz ops lv s of Some hz \<Rightarrow> hz \<noteq> 0 | None \<Rightarrow> False))"

text \<open>The grading window, lines 1287-1295.\<close>

definition gradeWindow :: "'c osmd_cursor \<Rightarrow> render \<Rightarrow> sample \<Rightarrow> 'c practice \<Rightarrow> 'c practice" where
  "gradeWindow ops lv smp s =
     (if isTransportRunningRef s \<and> hasPitch smp then
        (let s' = s\<lparr>windowHadAnyPitch := True\<rparr>
         in if withinThreshold (rawCents ops lv smp s) (getGradingThreshold (midiSeqTarget s))
            then s'\<lparr>windowHadAccurate := True\<rparr>
            else s')
      else s)"

text \<open>The displayed target follows the effective pitch while idle, lines 1300-1307.\<close>

definition syncIdleTarget :: "int option \<Rightarrow> 'c practice \<Rightarrow> 'c practice" where
  "syncIdleTarget eff s =
     (case eff of
        None \<Rightarrow> s
      | Some m \<Rightarrow>
          if \<not> isTransportRunningRef s \<and> m \<ge> VIOLIN_MIN_MIDI \<and> m \<le> VIOLIN_MAX_MIDI
          then s\<lparr>targetInfo := Some m\<rparr>
          else s)"

text \<open>
  The start gate, lines 1309-1328. \<open>stableTime\<close> is the \<open>performance.now()\<close> of line
  1311, and \<open>accurate\<close> the value of \<open>isAccurate\<close>.
\<close>

definition startGate :: "'c osmd_cursor \<Rightarrow> render \<Rightarrow> real \<Rightarrow> bool \<Rightarrow> real \<Rightarrow> 'c practice \<Rightarrow> 'c practice" where
  "startGate ops sv spb accurate stableTime s =
     (if accurate then
        (let s3 = (if stableForMs s = 0 then s\<lparr>stableForMs := stableTime\<rparr> else s)
         in if stableTime - stableForMs s3 > 250 then
              (let s4 = s3\<lparr>awaitingFirstCorrect := False,
                           awaitingFirstCorrectRef := False,
                           firstNoteMidi := None\<rparr>;
                   s5 = (case osmdRef s4 of
                           Cursor c \<Rightarrow> s4\<lparr>osmdRef := Cursor (ensureCursorOnNote ops c)\<rparr>
                         | NoCursor \<Rightarrow> s4
                         | NoOsmd \<Rightarrow> s4)
               in startTransport ops sv spb stableTime s5)
            else s3)
      else s\<lparr>stableForMs := 0\<rparr>)"

text \<open>
  The round: the pitch, the target and the accuracy are read first, then the three blocks
  run in the source's order.
\<close>

definition tick :: "'c osmd_cursor \<Rightarrow> render \<Rightarrow> render \<Rightarrow> real \<Rightarrow> sample \<Rightarrow> real \<Rightarrow> 'c practice \<Rightarrow> 'c practice" where
  "tick ops lv sv spb smp stableTime s =
     (let eff = effectiveMidi ops lv s;
          accurate = isAccurate ops lv smp s;
          s1 = gradeWindow ops lv smp s;
          s2 = syncIdleTarget eff s1
      in startGate ops sv spb accurate stableTime s2)"

subsection \<open>Jumping to a measure\<close>

text \<open>\<open>getFirstNoteTimestampForMeasure\<close>, lines 976-990.\<close>

fun firstNoteTimestamp :: "vsec list \<Rightarrow> real option" where
  "firstNoteTimestamp [] = None"
| "firstNoteTimestamp (vc # vcs) =
     (if list_ex (\<lambda>n. n > 0) (vc_staffEntryNotes vc) \<and> vc_timestamp vc \<noteq> None
      then vc_timestamp vc
      else firstNoteTimestamp vcs)"

definition getFirstNoteTimestampForMeasure :: "vsec list list option \<Rightarrow> int \<Rightarrow> real option" where
  "getFirstNoteTimestampForMeasure srcMeasures mn =
     (case srcMeasures of
        None \<Rightarrow> None
      | Some ms \<Rightarrow>
          if 0 \<le> mn - 1 \<and> mn - 1 < int (length ms)
          then firstNoteTimestamp (ms ! nat (mn - 1))
          else None)"

text \<open>The two bounded scans of \<open>jumpToMeasure\<close>, lines 1353-1373.\<close>

fun scanToMeasure :: "'c osmd_cursor \<Rightarrow> int \<Rightarrow> real option \<Rightarrow> nat \<Rightarrow> 'c \<Rightarrow> 'c" where
  "scanToMeasure ops mn firstTs 0 c = c"
| "scanToMeasure ops mn firstTs (Suc guard) c =
     (let curMeasure = currentMeasureIndex ops c + 1;
          curTs = currentTimeStamp ops c
      in if curMeasure > mn then c
         else if curMeasure = mn
                 \<and> (case firstTs of
                       None \<Rightarrow> True
                     | Some ft \<Rightarrow> (case curTs of None \<Rightarrow> False | Some t \<Rightarrow> t \<ge> ft))
         then c
         else scanToMeasure ops mn firstTs guard (cursor_next ops c))"

fun seekNoteInMeasure :: "'c osmd_cursor \<Rightarrow> int \<Rightarrow> nat \<Rightarrow> 'c \<Rightarrow> 'c" where
  "seekNoteInMeasure ops mn 0 c = c"
| "seekNoteInMeasure ops mn (Suc tries) c =
     (if currentMeasureIndex ops c + 1 \<noteq> mn then c
      else if notesUnderCursor ops c \<noteq> [] then c
      else seekNoteInMeasure ops mn tries (cursor_next ops c))"

text \<open>\<open>jumpToMeasure\<close>, lines 1341-1433; the measure asked for is the state's \<open>measureNumber\<close>.\<close>

definition jumpToMeasure :: "'c osmd_cursor \<Rightarrow> 'c practice \<Rightarrow> 'c practice" where
  "jumpToMeasure ops s =
     (case osmdRef s of
        NoOsmd \<Rightarrow> s
      | NoCursor \<Rightarrow> s\<lparr>status := StatusText ''No cursor available''\<rparr>
      | Cursor c0 \<Rightarrow>
          (let firstTs = getFirstNoteTimestampForMeasure (sourceMeasures s) (measureNumber s);
               c1 = cursor_reset ops c0;
               c2 = scanToMeasure ops (measureNumber s) firstTs 4096 c1;
               c3 = seekNoteInMeasure ops (measureNumber s) 256 c2;
               currentMidi = selectPrimaryNoteFromArray (notesUnderCursor ops c3);
               finalMeasure = currentMeasureIndex ops c3;
               s1 = s\<lparr>osmdRef := Cursor c3,
                       currentMeasure := finalMeasure + 1,
                       measureNumber := finalMeasure + 1\<rparr>
           in case currentMidi of
                Some m \<Rightarrow> s1\<lparr>targetInfo := Some m, status := StartingPointSet (finalMeasure + 1) m\<rparr>
              | None \<Rightarrow> s1\<lparr>status := CouldNotDetermineNote (finalMeasure + 1)\<rparr>))"

subsection \<open>A small score for the worked examples\<close>

text \<open>
  A cursor over three time slices, two to a measure, with one note each (A4, B4, C5), and
  the component as it stands after loading that score.
\<close>

definition demo_ops :: "nat osmd_cursor" where
  "demo_ops =
     \<lparr>cursor_reset = (\<lambda>c. 0),
      cursor_next = Suc,
      endReached = (\<lambda>c. c \<ge> 3),
      currentMeasureIndex = (\<lambda>c. int c div 2),
      currentTimeStamp = (\<lambda>c. Some (real c)),
      notesUnderCursor = (\<lambda>c. if c = 0 then [Some 69] else if c = 1 then [Some 71] else if c = 2 then [Some 72] else [])\<rparr>"

definition plainElement :: "int \<Rightarrow> MusicalElement" where
  "plainElement m = \<lparr>midi = m, accidental = None, dynamic = None, articulation = None, position = None, string = None\<rparr>"

definition demo_state :: "nat practice" where
  "demo_state =
     \<lparr>status = StatusText ''Ready'',
      targetInfo = Some 69,
      firstNoteMidi = Some 69,
      currentStepIndex = 0,
      scoreMidiSequence = [plainElement 69, plainElement 71, plainElement 72],
      bpm = 60,
      isTransportRunning = False,
      awaitingFirstCorrect = True,
      dynamicTempoEnabled = False,
      currentBpm = 60,
      measureNumber = 1,
      currentMeasure = 1,
      schedulerId = None,
      isTransportRunningRef = False,
      awaitingFirstCorrectRef = True,
      windowHadAccurate = False,
      windowHadAnyPitch = False,
      lastTargetMidi = Some 69,
      consecutiveErrors = 0,
      lastErrorTime = 0,
      noteMarks = [],
      stableForMs = 0,
      osmdRef = Cursor 0,
      sourceMeasures = None\<rparr>"


text \<open>The render that shows \<open>demo_state\<close>.\<close>

definition demo_view :: render where
  "demo_view =
     \<lparr>r_isTransportRunning = False,
      r_dynamicTempoEnabled = False,
      r_bpm = 60,
      r_currentBpm = 60,
      r_targetInfo = Some 69\<rparr>"

text \<open>States that the examples below start from.\<close>

definition c3_state :: "nat practice" where
  "c3_state = demo_state\<lparr>isTransportRunning := True, isTransportRunningRef := True,
                windowHadAnyPitch := True, schedulerId := Some 1000\<rparr>"

text \<open>
  A run at 80 BPM with dynamic tempo enabled before the start, so that the render which
  \<open>startTransport\<close> holds is up to date: the start, then three beats in which no pitch is
  heard, 750 ms apart.
\<close>

definition c4_state :: "nat practice" where
  "c4_state = demo_state\<lparr>dynamicTempoEnabled := True, bpm := 80, currentBpm := 80\<rparr>"

definition c4_view :: render where
  "c4_view =
     \<lparr>r_isTransportRunning = False,
      r_dynamicTempoEnabled = True,
      r_bpm = 80,
      r_currentBpm = 80,
      r_targetInfo = Some 69\<rparr>"

definition c4_started :: "nat practice" where
  "c4_started = startTransport demo_ops c4_view (3 / 4) 0 c4_state"

definition c4_beat1 :: "nat practice" where
  "c4_beat1 = step demo_ops c4_view (3 / 4) 750 (Some (0, 0)) c4_started"

definition c4_beat2 :: "nat practice" where
  "c4_beat2 = step demo_ops c4_view (3 / 4) 1500 (Some (0, 0)) c4_beat1"

definition c4_beat3 :: "nat practice" where
  "c4_beat3 = step demo_ops c4_view (3 / 4) 2250 (Some (0, 0)) c4_beat2"

text \<open>
  A component in which dynamic tempo was never enabled and 80 was typed into the BPM field:
  \<open>bpm\<close> is 80 and \<open>currentBpm\<close> still the initial 64, and \<open>startTransport\<close> holds the
  render from before the typing.
\<close>

definition c5_state :: "nat practice" where
  "c5_state = demo_state\<lparr>bpm := 80, currentBpm := 64\<rparr>"

definition c5_view :: render where
  "c5_view =
     \<lparr>r_isTransportRunning = False,
      r_dynamicTempoEnabled = False,
      r_bpm = 64,
      r_currentBpm = 64,
      r_targetInfo = Some 69\<rparr>"

text \<open>After a run with dynamic tempo enabled that slowed down to 72.\<close>

definition c5_slowed :: "nat practice" where
  "c5_slowed = demo_state\<lparr>dynamicTempoEnabled := True, bpm := 80, currentBpm := 72,
                 consecutiveErrors := 3, lastErrorTime := 2250\<rparr>"

definition c7_state :: "nat practice" where
  "c7_state = demo_state\<lparr>scoreMidiSequence := []\<rparr>"

text \<open>A clear A4 from the detector.\<close>

definition a440 :: sample where
  "a440 = \<lparr>freq = Fin 440, clarity = 9 / 10\<rparr>"

definition c9_state :: "nat practice" where
  "c9_state = demo_state\<lparr>currentStepIndex := 2\<rparr>"

definition c8_state :: "nat practice" where
  "c8_state = demo_state\<lparr>stableForMs := 1000\<rparr>"

section \<open>Properties\<close>

subsection \<open>Rounding\<close>

lemma roundHalfEven_of_int [simp]: "roundHalfEven (of_int k) = k"
  by (simp add: roundHalfEven_def)

lemma ulp_pos [simp]: "0 < ulp x"
  by (simp add: ulp_def)

lemma ulp_eq:
  fixes e :: nat
  assumes "2 ^ e \<le> \<bar>x\<bar>" and "\<bar>x\<bar> < 2 ^ (e + 1)"
  shows "ulp x = 2 ^ (e + 1022) / 2 ^ 1074"
proof -
  define P :: real where "P = 2 ^ 1074"
  have P: "0 < P" by (simp add: P_def)
  let ?n = "nat \<lfloor>\<bar>x\<bar> * P\<rfloor>"
  have "(2::real) ^ e * P \<le> \<bar>x\<bar> * P"
    using assms(1) P by simp
  then have lo: "(2::real) ^ (e + 1074) \<le> \<bar>x\<bar> * P"
    by (simp only: power_add P_def)
  have "\<bar>x\<bar> * P < (2::real) ^ (e + 1) * P"
    using assms(2) P by simp
  then have hi: "\<bar>x\<bar> * P < (2::real) ^ (e + 1 + 1074)"
    by (simp only: power_add P_def)
  have fl0: "0 \<le> \<lfloor>\<bar>x\<bar> * P\<rfloor>"
    using P by simp
  have "of_int ((2::int) ^ (e + 1074)) \<le> \<bar>x\<bar> * P"
    using lo by (simp only: of_int_power of_int_numeral)
  then have "(2::int) ^ (e + 1074) \<le> \<lfloor>\<bar>x\<bar> * P\<rfloor>"
    by (simp only: le_floor_iff)
  then have "int (2 ^ (e + 1074)) \<le> \<lfloor>\<bar>x\<bar> * P\<rfloor>"
    by (simp only: of_nat_power of_nat_numeral)
  then have l: "2 ^ (e + 1074) \<le> ?n"
    by (simp only: le_nat_iff [OF fl0])
  have "\<bar>x\<bar> * P < of_int ((2::int) ^ (e + 1 + 1074))"
    using hi by (simp only: of_int_power of_int_numeral)
  then have "\<lfloor>\<bar>x\<bar> * P\<rfloor> < (2::int) ^ (e + 1 + 1074)"
    by (simp only: floor_less_iff)
  then have "\<lfloor>\<bar>x\<bar> * P\<rfloor> < int (2 ^ (e + 1 + 1074))"
    by (simp only: of_nat_power of_nat_numeral)
  then have "?n < 2 ^ (e + 1 + 1074)"
    by (simp only: nat_less_iff [OF fl0])
  moreover have "e + 1 + 1074 = e + 1075"
    by simp
  ultimately have h: "?n < 2 ^ (e + 1075)"
    by (simp only:)
  have ex: "e + 1075 - 1 = e + 1074"
    by simp
  have l': "2 ^ (e + 1075 - 1) \<le> ?n"
    using l by (simp only: ex)
  have "floorlog 2 ?n \<le> e + 1075"
    by (rule floorlog_leI [OF h]) simp_all
  moreover have "e + 1075 \<le> floorlog 2 ?n"
    by (rule floorlog_geI [OF l']) simp
  ultimately have "floorlog 2 ?n = e + 1075" by simp
  then show ?thesis by (simp add: ulp_def P_def del: power_numeral)
qed

lemma ulp_mono:
  assumes "\<bar>x\<bar> \<le> \<bar>y\<bar>"
  shows "\<exists>j::nat. ulp y = 2 ^ j * ulp x"
proof -
  define P :: real where "P = 2 ^ 1074"
  have P: "0 < P" by (simp add: P_def)
  define kx where "kx = max (floorlog 2 (nat \<lfloor>\<bar>x\<bar> * P\<rfloor>) - 1) 52 - 52"
  define ky where "ky = max (floorlog 2 (nat \<lfloor>\<bar>y\<bar> * P\<rfloor>) - 1) 52 - 52"
  have "\<bar>x\<bar> * P \<le> \<bar>y\<bar> * P"
    using assms P by simp
  then have "nat \<lfloor>\<bar>x\<bar> * P\<rfloor> \<le> nat \<lfloor>\<bar>y\<bar> * P\<rfloor>"
    by (intro nat_mono floor_mono)
  then have "floorlog 2 (nat \<lfloor>\<bar>x\<bar> * P\<rfloor>) \<le> floorlog 2 (nat \<lfloor>\<bar>y\<bar> * P\<rfloor>)"
    by (rule floorlog_mono)
  then have le: "kx \<le> ky"
    unfolding kx_def ky_def by linarith
  have ux: "ulp x = 2 ^ kx / P" and uy: "ulp y = 2 ^ ky / P"
    by (simp_all only: ulp_def kx_def ky_def P_def)
  have "(2::real) ^ ky = 2 ^ (ky - kx) * 2 ^ kx"
    using le by (simp only: power_add [symmetric] le_add_diff_inverse2)
  then have "ulp y = 2 ^ (ky - kx) * ulp x"
    by (simp only: ux uy times_divide_eq_right)
  then show ?thesis ..
qed

lemma ulp_divides:
  fixes e :: nat
  assumes "\<bar>x\<bar> < 2 ^ e"
  shows "\<exists>j::nat. 2 ^ (e + 1021) / 2 ^ 1074 = 2 ^ j * ulp x"
proof -
  define P :: real where "P = 2 ^ 1074"
  have P: "0 < P" by (simp add: P_def)
  define kx where "kx = max (floorlog 2 (nat \<lfloor>\<bar>x\<bar> * P\<rfloor>) - 1) 52 - 52"
  have fl0: "0 \<le> \<lfloor>\<bar>x\<bar> * P\<rfloor>"
    using P by simp
  have "\<bar>x\<bar> * P < 2 ^ e * P"
    using assms P by simp
  then have "\<bar>x\<bar> * P < of_int ((2::int) ^ (e + 1074))"
    by (simp only: power_add P_def of_int_power of_int_numeral of_int_mult)
  then have "\<lfloor>\<bar>x\<bar> * P\<rfloor> < (2::int) ^ (e + 1074)"
    by (simp only: floor_less_iff)
  then have "\<lfloor>\<bar>x\<bar> * P\<rfloor> < int (2 ^ (e + 1074))"
    by (simp only: of_nat_power of_nat_numeral)
  then have h: "nat \<lfloor>\<bar>x\<bar> * P\<rfloor> < 2 ^ (e + 1074)"
    by (simp only: nat_less_iff [OF fl0])
  have "floorlog 2 (nat \<lfloor>\<bar>x\<bar> * P\<rfloor>) \<le> e + 1074"
    by (rule floorlog_leI [OF h]) simp_all
  then have le: "kx \<le> e + 1021"
    unfolding kx_def by linarith
  have ux: "ulp x = 2 ^ kx / P"
    by (simp only: ulp_def kx_def P_def)
  have "(2::real) ^ (e + 1021) = 2 ^ (e + 1021 - kx) * 2 ^ kx"
    using le by (simp only: power_add [symmetric] le_add_diff_inverse2)
  then have "2 ^ (e + 1021) / P = 2 ^ (e + 1021 - kx) * ulp x"
    by (simp only: ux times_divide_eq_right)
  then show ?thesis
    unfolding P_def ..
qed

text \<open>
  A double is a whole multiple of its own spacing, and such a multiple within range rounds
  to itself.
\<close>

lemma double_multiple:
  assumes "fl x = Fin x"
  shows "\<exists>m::int. x = of_int m * ulp x"
proof -
  from assms have "x = of_int (roundHalfEven (x / ulp x)) * ulp x"
    by (simp add: fl_def Let_def split: if_splits del: power_numeral)
  then show ?thesis ..
qed

lemma fl_exact:
  assumes "x = of_int m * ulp x" and "\<bar>x\<bar> < 2 ^ 1024"
  shows "fl x = Fin x"
proof -
  have "x / ulp x = of_int m"
    using assms(1) ulp_pos [of x] by (metis less_irrefl nonzero_eq_divide_eq)
  then have "of_int (roundHalfEven (x / ulp x)) * ulp x = x"
    using assms(1) by simp
  moreover have "\<not> x \<ge> 2 ^ 1024" and "\<not> x \<le> - (2 ^ 1024)"
    using assms(2) by linarith+
  ultimately show ?thesis
    by (simp add: fl_def Let_def del: power_numeral)
qed

text \<open>
  Below \<open>2 ^ 57\<close> the spacing divides 1200, so adding or subtracting 1200 is exact when
  the magnitude does not grow.
\<close>

lemma fl_add_1200:
  assumes d: "fl x = Fin x" and b: "\<bar>x\<bar> < 2 ^ 57"
    and c: "c = 1200 \<or> c = - 1200" and le: "\<bar>x + c\<bar> \<le> \<bar>x\<bar>"
  shows "fl (x + c) = Fin (x + c)"
proof -
  from double_multiple [OF d] obtain m :: int where m: "x = of_int m * ulp x" ..
  from ulp_divides [OF b] obtain j :: nat where "2 ^ (57 + 1021) / 2 ^ 1074 = 2 ^ j * ulp x" ..
  then have j: "16 = 2 ^ j * ulp x"
    by simp
  from ulp_mono [OF le] obtain i :: nat where i: "ulp x = 2 ^ i * ulp (x + c)" ..
  from c obtain s :: int where s: "c = of_int s * 1200"
    by (metis mult_minus1 of_int_1 of_int_minus mult_1)
  have "c = of_int (s * 75) * 16"
    using s by simp
  also have "\<dots> = of_int (s * 75 * 2 ^ j) * ulp x"
    by (subst j) simp
  finally have "x + c = of_int (m + s * 75 * 2 ^ j) * ulp x"
    using m by (simp add: algebra_simps)
  also have "\<dots> = of_int ((m + s * 75 * 2 ^ j) * 2 ^ i) * ulp (x + c)"
    by (subst i) simp
  finally have e: "x + c = of_int ((m + s * 75 * 2 ^ j) * 2 ^ i) * ulp (x + c)" .
  have "\<bar>x + c\<bar> < 2 ^ 57"
    using le b by linarith
  also have "(2::real) ^ 57 < 2 ^ 1024"
    by (rule power_strict_increasing) simp_all
  finally show ?thesis
    by (rule fl_exact [OF e])
qed

text \<open>
  Rounding keeps a number between two bounds that are doubles of the same or a finer
  spacing.
\<close>

lemma roundHalfEven_ge: "of_int a \<le> y \<Longrightarrow> a \<le> roundHalfEven y"
proof -
  assume "of_int a \<le> y"
  then have "a \<le> \<lfloor>y\<rfloor>" by (simp add: le_floor_iff)
  then show ?thesis by (simp add: roundHalfEven_def Let_def)
qed

lemma roundHalfEven_le: "y \<le> of_int b \<Longrightarrow> roundHalfEven y \<le> b"
proof -
  assume y: "y \<le> of_int b"
  show ?thesis
  proof (cases "y = of_int b")
    case True
    then show ?thesis by simp
  next
    case False
    with y have "y < of_int b" by simp
    then have "\<lfloor>y\<rfloor> < b" by (simp add: floor_less_iff)
    then show ?thesis by (simp add: roundHalfEven_def Let_def)
  qed
qed

lemma fl_between:
  fixes e :: nat
  assumes a: "lo = of_int a * (2 ^ (e + 1021) / 2 ^ 1074)"
    and b: "hi = of_int b * (2 ^ (e + 1021) / 2 ^ 1074)"
    and x: "lo \<le> x" "x \<le> hi" and h: "\<bar>x\<bar> < 2 ^ e" and f: "hi < 2 ^ 1024" "- (2 ^ 1024) < lo"
  shows "\<exists>v. fl x = Fin v \<and> lo \<le> v \<and> v \<le> hi"
proof -
  from ulp_divides [OF h] obtain j :: nat where j: "2 ^ (e + 1021) / 2 ^ 1074 = 2 ^ j * ulp x" ..
  have u: "0 < ulp x" by simp
  have lo: "lo = of_int (a * 2 ^ j) * ulp x"
    unfolding a j by simp
  have hi: "hi = of_int (b * 2 ^ j) * ulp x"
    unfolding b j by simp
  define r where "r = roundHalfEven (x / ulp x)"
  have "of_int (a * 2 ^ j) \<le> x / ulp x"
    using x(1) u unfolding lo by (simp add: pos_le_divide_eq)
  then have "a * 2 ^ j \<le> r"
    unfolding r_def by (rule roundHalfEven_ge)
  then have "(of_int (a * 2 ^ j) :: real) \<le> of_int r"
    by (simp only: of_int_le_iff)
  then have l: "lo \<le> of_int r * ulp x"
    unfolding lo using u by (simp only: mult_le_cancel_right_pos)
  have "x / ulp x \<le> of_int (b * 2 ^ j)"
    using x(2) u unfolding hi by (simp add: pos_divide_le_eq)
  then have "r \<le> b * 2 ^ j"
    unfolding r_def by (rule roundHalfEven_le)
  then have "(of_int r :: real) \<le> of_int (b * 2 ^ j)"
    by (simp only: of_int_le_iff)
  then have g: "of_int r * ulp x \<le> hi"
    unfolding hi using u by (simp only: mult_le_cancel_right_pos)
  have "\<not> of_int r * ulp x \<ge> 2 ^ 1024" and "\<not> of_int r * ulp x \<le> - (2 ^ 1024)"
    using l g f by linarith+
  then have "fl x = Fin (of_int r * ulp x)"
    by (simp add: fl_def Let_def r_def del: power_numeral)
  with l g show ?thesis by blast
qed

lemma fl_quarter_to_three:
  assumes "1 / 4 \<le> x" and "x \<le> 3"
  shows "\<exists>v. fl x = Fin v \<and> 1 / 4 \<le> v \<and> v \<le> 3"
proof -
  have a: "(1 / 4 :: real) = of_int (2 ^ 49) * (2 ^ (2 + 1021) / 2 ^ 1074)"
    by simp
  have b: "(3 :: real) = of_int (3 * 2 ^ 51) * (2 ^ (2 + 1021) / 2 ^ 1074)"
    by simp
  have h: "\<bar>x\<bar> < 2 ^ 2"
    using assms by simp
  have f: "(3::real) < 2 ^ 1024" "- (2 ^ 1024) < (1 / 4 :: real)"
    by simp_all
  from fl_between [OF a b assms h f] show ?thesis .
qed


text \<open>
  The literal \<open>0.6\<close> of \<open>clarityThreshold\<close>: the double nearest to 6/10, which lies
  below it.
\<close>

lemma ulp_below_one: "ulp (6 / 10) = 2 ^ 1021 / 2 ^ 1074"
proof -
  define P :: real where "P = 2 ^ 1074"
  have P: "0 < P" by (simp add: P_def)
  let ?n = "nat \<lfloor>\<bar>6 / 10 :: real\<bar> * P\<rfloor>"
  have fl0: "0 \<le> \<lfloor>\<bar>6 / 10 :: real\<bar> * P\<rfloor>"
    using P by simp
  have lo: "of_int ((2::int) ^ 1073) \<le> \<bar>6 / 10 :: real\<bar> * P"
    and hi: "\<bar>6 / 10 :: real\<bar> * P < of_int ((2::int) ^ 1074)"
    by (simp_all add: P_def)
  from lo have "(2::int) ^ 1073 \<le> \<lfloor>\<bar>6 / 10 :: real\<bar> * P\<rfloor>"
    by (simp only: le_floor_iff)
  then have "int (2 ^ 1073) \<le> \<lfloor>\<bar>6 / 10 :: real\<bar> * P\<rfloor>"
    by (simp only: of_nat_power of_nat_numeral)
  then have l: "2 ^ (1074 - 1) \<le> ?n"
    by (simp only: le_nat_iff [OF fl0]) simp
  from hi have "\<lfloor>\<bar>6 / 10 :: real\<bar> * P\<rfloor> < (2::int) ^ 1074"
    by (simp only: floor_less_iff)
  then have "\<lfloor>\<bar>6 / 10 :: real\<bar> * P\<rfloor> < int (2 ^ 1074)"
    by (simp only: of_nat_power of_nat_numeral)
  then have h: "?n < 2 ^ 1074"
    by (simp only: nat_less_iff [OF fl0])
  have "floorlog 2 ?n \<le> 1074"
    by (rule floorlog_leI [OF h]) simp_all
  moreover have "1074 \<le> floorlog 2 ?n"
    by (rule floorlog_geI [OF l]) simp
  ultimately have "floorlog 2 ?n = 1074" by simp
  then show ?thesis by (simp add: ulp_def P_def del: power_numeral)
qed

lemma clarityThreshold_double: "fl (6 / 10) = Fin clarityThreshold \<and> clarityThreshold < 6 / 10"
  unfolding fl_def ulp_below_one clarityThreshold_def
  by (simp add: roundHalfEven_def Let_def)

subsection \<open>Auxiliary facts\<close>

lemma if_add_int: "(if c then b + k else b) = b + (if c then k else (0::int))"
  by simp

lemma updateDynamicTempo_keeps [simp]:
  "noteMarks (updateDynamicTempo v a n s) = noteMarks s"
  "currentStepIndex (updateDynamicTempo v a n s) = currentStepIndex s"
  "scoreMidiSequence (updateDynamicTempo v a n s) = scoreMidiSequence s"
  "schedulerId (updateDynamicTempo v a n s) = schedulerId s"
  "osmdRef (updateDynamicTempo v a n s) = osmdRef s"
  "isTransportRunning (updateDynamicTempo v a n s) = isTransportRunning s"
  "status (updateDynamicTempo v a n s) = status s"
  by (simp_all add: updateDynamicTempo_def Let_def)

lemma startTransport_keeps [simp]:
  "stableForMs (startTransport ops v spb now s) = stableForMs s"
  "awaitingFirstCorrectRef (startTransport ops v spb now s) = awaitingFirstCorrectRef s"
  "awaitingFirstCorrect (startTransport ops v spb now s) = awaitingFirstCorrect s"
  "currentStepIndex (startTransport ops v spb now s) = currentStepIndex s"
  by (simp_all add: startTransport_def setTimeout_step_def Let_def split: osmd_ref.split)

lemma startTransport_starts:
  "\<not> r_isTransportRunning v \<Longrightarrow> osmdRef s = Cursor c \<Longrightarrow>
   isTransportRunning (startTransport ops v spb now s)
   \<and> schedulerId (startTransport ops v spb now s) = Some (now + spb * 1000)"
  by (simp add: startTransport_def setTimeout_step_def Let_def)

lemma midiSeqTarget_stableForMs [simp]:
  "midiSeqTarget (s\<lparr>stableForMs := t\<rparr>) = midiSeqTarget s"
  by (simp add: midiSeqTarget_def)

lemma effectiveMidi_stableForMs [simp]:
  "effectiveMidi ops lv (s\<lparr>stableForMs := t\<rparr>) = effectiveMidi ops lv s"
  by (simp add: effectiveMidi_def split: osmd_ref.split option.split)

lemma gatingTargetHz_stableForMs [simp]:
  "gatingTargetHz ops lv (s\<lparr>stableForMs := t\<rparr>) = gatingTargetHz ops lv s"
  by (simp add: gatingTargetHz_def)

lemma rawCents_stableForMs [simp]:
  "rawCents ops lv smp (s\<lparr>stableForMs := t\<rparr>) = rawCents ops lv smp s"
  by (simp add: rawCents_def split: jsnum.split)

lemma isAccurate_stableForMs [simp]:
  "isAccurate ops lv smp (s\<lparr>stableForMs := t\<rparr>) = isAccurate ops lv smp s"
  by (simp add: isAccurate_def)

lemma gradeWindow_idle: "\<not> isTransportRunningRef s \<Longrightarrow> gradeWindow ops lv smp s = s"
  by (simp add: gradeWindow_def)

lemma syncIdleTarget_same: "targetInfo s = Some m \<Longrightarrow> syncIdleTarget (Some m) s = s"
  by (simp add: syncIdleTarget_def)

subsection \<open>Grading threshold\<close>

text \<open>
  C1. For no element the threshold is 20. For an element it is the octave base (35 from
  octave 6 up, 30 in octave 5, 25 up to octave 3, 20 in octave 4, the octave being
  \<open>floor(midi / 12) - 1\<close>), plus 5 for an accidental that is present and not 0, plus
  \<open>3 * (position - 1)\<close> for a position above 1, plus 3 on the E string, plus 2 for
  staccato, capped at 50. The function is total: the equation holds for every element,
  whatever its optional fields hold.
\<close>

theorem getGradingThreshold_value:
  "getGradingThreshold None = 20 \<and>
   getGradingThreshold (Some e) =
     min 50
       ((let octave = midi e div 12 - 1
         in if octave \<ge> 6 then 35 else if octave \<ge> 5 then 30 else if octave \<le> 3 then 25 else 20)
        + (case accidental e of None \<Rightarrow> 0 | Some a \<Rightarrow> if a = 0 then 0 else 5)
        + (case position e of None \<Rightarrow> 0 | Some p \<Rightarrow> if p > 1 then 3 * (p - 1) else 0)
        + (if string e = Some ''E'' then 3 else 0)
        + (if articulation e = Some ''staccato'' then 2 else 0))"
proof
  show "getGradingThreshold None = 20"
    by (simp add: getGradingThreshold_def correctDuringTransportCents_def)
next
  have acc: "(if accidental e \<noteq> None \<and> accidental e \<noteq> Some 0 then (5::int) else 0)
             = (case accidental e of None \<Rightarrow> 0 | Some a \<Rightarrow> if a = 0 then 0 else 5)"
    by (cases "accidental e") simp_all
  have pos: "\<And>p. (if p \<noteq> 0 \<and> 1 < p then (p - 1) * 3 else 0) = (if 1 < p then 3 * (p - 1) else (0::int))"
    by simp
  show "getGradingThreshold (Some e) =
     min 50
       ((let octave = midi e div 12 - 1
         in if octave \<ge> 6 then 35 else if octave \<ge> 5 then 30 else if octave \<le> 3 then 25 else 20)
        + (case accidental e of None \<Rightarrow> 0 | Some a \<Rightarrow> if a = 0 then 0 else 5)
        + (case position e of None \<Rightarrow> 0 | Some p \<Rightarrow> if p > 1 then 3 * (p - 1) else 0)
        + (if string e = Some ''E'' then 3 else 0)
        + (if articulation e = Some ''staccato'' then 2 else 0))"
    unfolding getGradingThreshold_def Let_def option.case correctDuringTransportCents_def
      if_add_int acc
    by (cases "position e") (simp_all only: option.case pos add_0_right)
qed

subsection \<open>Normalising cents\<close>

text \<open>
  The double nearest to \<open>10 ^ 20 - 1200\<close> is \<open>10 ^ 20\<close> itself: around \<open>10 ^ 20\<close> the
  doubles are 16384 apart.
\<close>

lemma ulp_1e20: "ulp (10 ^ 20 - 1200) = 16384"
proof -
  have "ulp (10 ^ 20 - 1200) = 2 ^ (66 + 1022) / 2 ^ 1074"
    by (rule ulp_eq) simp_all
  then show ?thesis by simp
qed

lemma fl_1e20_step: "fl (10 ^ 20 + - 1200) = Fin (10 ^ 20)"
  using ulp_1e20 by (simp add: fl_def roundHalfEven_def Let_def)

lemma ulp_1e20': "ulp (10 ^ 20) = 16384"
proof -
  have "ulp (10 ^ 20) = 2 ^ (66 + 1022) / 2 ^ 1074"
    by (rule ulp_eq) simp_all
  then show ?thesis by simp
qed

lemma fl_1e20: "fl (10 ^ 20) = Fin (10 ^ 20)"
  using ulp_1e20' by (simp add: fl_def roundHalfEven_def Let_def)

lemma normalizeCents_down_1e20: "normalizeCents_down (Fin (10 ^ 20)) = None"
proof (cases "normalizeCents_down (Fin (10 ^ 20))")
  case None
  then show ?thesis .
next
  case (Some y)
  have "n \<noteq> Fin (10 ^ 20)" if "normalizeCents_down n = Some y" for n y
  proof (rule normalizeCents_down.raw_induct [where P = "\<lambda>n y. n \<noteq> Fin (10 ^ 20)", OF _ that])
    fix f :: "jsnum \<Rightarrow> jsnum option" and n y
    assume ih: "\<And>x y. f x = Some y \<Longrightarrow> x \<noteq> Fin (10 ^ 20)"
      and eq: "(if js_gt n 600 then f (js_add n (- 1200)) else Some n) = Some y"
    show "n \<noteq> Fin (10 ^ 20)"
    proof
      assume n: "n = Fin (10 ^ 20)"
      have "js_add (Fin (10 ^ 20)) (- 1200) = Fin (10 ^ 20)"
        unfolding js_add_def jsnum.case by (rule fl_1e20_step)
      with eq n have "f (Fin (10 ^ 20)) = Some y"
        by (simp add: js_gt_def)
      from ih [OF this] show False by simp
    qed
  qed
  from this [OF Some] show ?thesis by simp
qed

text \<open>
  C2, as stated, fails: \<open>10 ^ 20\<close> is a finite double, and on it the first loop never
  ends, since \<open>n - 1200\<close> is \<open>n\<close> again.
\<close>

theorem normalizeCents_counterexample:
  "fl (10 ^ 20) = Fin (10 ^ 20) \<and> normalizeCents (Fin (10 ^ 20)) = None"
  by (simp only: fl_1e20 normalizeCents_def normalizeCents_down_1e20 option.case simp_thms)

lemma normalizeCents_down_stop:
  "x \<le> 600 \<Longrightarrow> normalizeCents_down (Fin x) = Some (Fin x)"
  by (subst normalizeCents_down.simps) (simp add: js_gt_def)

lemma normalizeCents_down_go:
  assumes "600 < x" and "fl x = Fin x" and "\<bar>x\<bar> < 2 ^ 57"
  shows "normalizeCents_down (Fin x) = normalizeCents_down (Fin (x - 1200))"
    and "fl (x - 1200) = Fin (x - 1200)"
proof -
  have "\<bar>x + - 1200\<bar> \<le> \<bar>x\<bar>"
    using assms(1) by linarith
  from fl_add_1200 [OF assms(2,3) _ this] have f: "fl (x + - 1200) = Fin (x + - 1200)"
    by simp
  then show "fl (x - 1200) = Fin (x - 1200)"
    by simp
  have "js_add (Fin x) (- 1200) = Fin (x - 1200)"
    unfolding js_add_def jsnum.case using f by simp
  with assms(1) show "normalizeCents_down (Fin x) = normalizeCents_down (Fin (x - 1200))"
    by (subst normalizeCents_down.simps) (simp add: js_gt_def)
qed

lemma normalizeCents_down_result:
  assumes "fl x = Fin x" and "\<bar>x\<bar> < 2 ^ 57" and "x - 600 \<le> 1200 * real n"
  shows "\<exists>v (k::int). normalizeCents_down (Fin x) = Some (Fin v)
           \<and> v \<le> 600 \<and> (if 600 < x then - 600 < v else v = x)
           \<and> v = x + 1200 * of_int k \<and> fl v = Fin v \<and> \<bar>v\<bar> \<le> \<bar>x\<bar>"
  using assms
proof (induction n arbitrary: x)
  case 0
  then have "x \<le> 600" by simp
  with 0 show ?case
    by (intro exI [of _ x] exI [of _ 0]) (simp add: normalizeCents_down_stop)
next
  case (Suc n)
  show ?case
  proof (cases "600 < x")
    case False
    with Suc.prems show ?thesis
      by (intro exI [of _ x] exI [of _ 0]) (simp add: normalizeCents_down_stop)
  next
    case True
    note go = normalizeCents_down_go [OF True Suc.prems(1,2)]
    have b: "\<bar>x - 1200\<bar> < 2 ^ 57" and le: "\<bar>x - 1200\<bar> \<le> \<bar>x\<bar>"
      using True Suc.prems(2) by linarith+
    have m: "x - 1200 - 600 \<le> 1200 * real n"
      using Suc.prems(3) by simp
    from Suc.IH [OF go(2) b m] obtain v and k :: int where
      r: "normalizeCents_down (Fin (x - 1200)) = Some (Fin v)" "v \<le> 600"
        "if 600 < x - 1200 then - 600 < v else v = x - 1200"
        "v = x - 1200 + 1200 * of_int k" "fl v = Fin v" "\<bar>v\<bar> \<le> \<bar>x - 1200\<bar>"
      by blast
    have "- 600 < v"
      using r(3) True by (auto split: if_splits)
    moreover have "v = x + 1200 * of_int (k - 1)"
      using r(4) by simp
    moreover have "\<bar>v\<bar> \<le> \<bar>x\<bar>"
      using r(6) le by linarith
    ultimately show ?thesis
      using r(1,2,5) True go(1) by (intro exI [of _ v] exI [of _ "k - 1"]) simp
  qed
qed

lemma normalizeCents_up_stop:
  "- 600 < x \<Longrightarrow> normalizeCents_up (Fin x) = Some (Fin x)"
  by (subst normalizeCents_up.simps) (simp add: js_le_def)

lemma normalizeCents_up_go:
  assumes "x \<le> - 600" and "fl x = Fin x" and "\<bar>x\<bar> < 2 ^ 57"
  shows "normalizeCents_up (Fin x) = normalizeCents_up (Fin (x + 1200))"
    and "fl (x + 1200) = Fin (x + 1200)"
proof -
  have "\<bar>x + 1200\<bar> \<le> \<bar>x\<bar>"
    using assms(1) by linarith
  from fl_add_1200 [OF assms(2,3) _ this] show f: "fl (x + 1200) = Fin (x + 1200)"
    by simp
  have "js_add (Fin x) 1200 = Fin (x + 1200)"
    unfolding js_add_def jsnum.case using f by simp
  with assms(1) show "normalizeCents_up (Fin x) = normalizeCents_up (Fin (x + 1200))"
    by (subst normalizeCents_up.simps) (simp add: js_le_def)
qed

lemma normalizeCents_up_result:
  assumes "fl x = Fin x" and "\<bar>x\<bar> < 2 ^ 57" and "x \<le> 600"
    and "- 600 - x < 1200 * real n"
  shows "\<exists>w (k::int). normalizeCents_up (Fin x) = Some (Fin w)
           \<and> - 600 < w \<and> w \<le> 600 \<and> w = x + 1200 * of_int k \<and> fl w = Fin w"
  using assms
proof (induction n arbitrary: x)
  case 0
  then have "- 600 < x" by simp
  with 0 show ?case
    by (intro exI [of _ x] exI [of _ 0]) (simp add: normalizeCents_up_stop)
next
  case (Suc n)
  show ?case
  proof (cases "- 600 < x")
    case True
    with Suc.prems show ?thesis
      by (intro exI [of _ x] exI [of _ 0]) (simp add: normalizeCents_up_stop)
  next
    case False
    then have x: "x \<le> - 600" by simp
    note go = normalizeCents_up_go [OF x Suc.prems(1,2)]
    have b: "\<bar>x + 1200\<bar> < 2 ^ 57" and u: "x + 1200 \<le> 600"
      using x Suc.prems(2) by linarith+
    have m: "- 600 - (x + 1200) < 1200 * real n"
      using Suc.prems(4) by simp
    from Suc.IH [OF go(2) b u m] obtain w and k :: int where
      r: "normalizeCents_up (Fin (x + 1200)) = Some (Fin w)" "- 600 < w" "w \<le> 600"
        "w = x + 1200 + 1200 * of_int k" "fl w = Fin w"
      by blast
    have "w = x + 1200 * of_int (k + 1)"
      using r(4) by simp
    then show ?thesis
      using r(1,2,3,5) go(1) by (intro exI [of _ w] exI [of _ "k + 1"]) simp
  qed
qed

text \<open>
  C2, amended. On every finite double of magnitude below \<open>2 ^ 57\<close> both iterations end, and
  the result \<open>v\<close> is finite with \<open>- 600 < v \<le> 600\<close> and differs from the input by a whole
  multiple of 1200, exactly.
\<close>

theorem normalizeCents_window:
  assumes "fl x = Fin x" and "\<bar>x\<bar> < 2 ^ 57"
  shows "\<exists>v (k::int). normalizeCents (Fin x) = Some (Fin v)
           \<and> - 600 < v \<and> v \<le> 600 \<and> v = x + 1200 * of_int k"
proof -
  obtain n :: nat where n: "x - 600 \<le> 1200 * real n"
    by (metis mult.commute real_arch_simple pos_divide_le_eq zero_less_numeral)
  from normalizeCents_down_result [OF assms n] obtain v and k :: int where
    d: "normalizeCents_down (Fin x) = Some (Fin v)" "v \<le> 600"
      "v = x + 1200 * of_int k" "fl v = Fin v" "\<bar>v\<bar> \<le> \<bar>x\<bar>"
    by blast
  have b: "\<bar>v\<bar> < 2 ^ 57"
    using d(5) assms(2) by linarith
  obtain n' :: nat where n': "- 600 - v < 1200 * real n'"
    by (metis mult.commute reals_Archimedean2 pos_divide_less_eq zero_less_numeral)
  from normalizeCents_up_result [OF d(4) b d(2) n'] obtain w and j :: int where
    u: "normalizeCents_up (Fin v) = Some (Fin w)" "- 600 < w" "w \<le> 600"
      "w = v + 1200 * of_int j"
    by blast
  have "w = x + 1200 * of_int (k + j)"
    using u(4) d(3) by simp
  moreover have "normalizeCents (Fin x) = Some (Fin w)"
    by (simp add: normalizeCents_def d(1) u(1))
  ultimately show ?thesis
    using u(2,3) by blast
qed

text \<open>
  The theorem at 1000 cents.
\<close>

lemma fl_1000: "fl 1000 = Fin 1000"
proof -
  have u: "ulp 1000 = 2 ^ (9 + 1022) / 2 ^ 1074"
    by (rule ulp_eq) simp_all
  have "(1000::real) = of_int (1000 * 2 ^ 43) * ulp 1000"
    unfolding u by simp
  then show ?thesis
    by (rule fl_exact) simp
qed

theorem normalizeCents_window_witness:
  "fl 1000 = Fin 1000 \<and> \<bar>1000 :: real\<bar> < 2 ^ 57
   \<and> (\<exists>v (k::int). normalizeCents (Fin 1000) = Some (Fin v)
           \<and> - 600 < v \<and> v \<le> 600 \<and> v = 1000 + 1200 * of_int k)"
proof -
  have b: "\<bar>1000 :: real\<bar> < 2 ^ 57"
    by simp
  from normalizeCents_window [OF fl_1000 b] fl_1000 b show ?thesis
    by blast
qed

subsection \<open>Beat classification\<close>

text \<open>
  C3. A step that runs with a cursor that has not reached the end, and that can place a
  mark, appends exactly one mark; its kind is \<open>Correct\<close> exactly when the window saw an
  accurate pitch, \<open>Incorrect\<close> exactly when it saw a pitch but no accurate one, and
  \<open>Missed\<close> exactly when it saw none. This holds whatever render the callback holds.
\<close>

theorem step_classification:
  assumes "osmdRef s = Cursor c" and "\<not> endReached ops c"
  shows "noteMarks (step ops v spb now (Some (x, y)) s)
           = noteMarks s @ [last (noteMarks (step ops v spb now (Some (x, y)) s))]
       \<and> mark_x (last (noteMarks (step ops v spb now (Some (x, y)) s))) = x
       \<and> mark_y (last (noteMarks (step ops v spb now (Some (x, y)) s))) = y
       \<and> (kind (last (noteMarks (step ops v spb now (Some (x, y)) s))) = Correct)
           = windowHadAccurate s
       \<and> (kind (last (noteMarks (step ops v spb now (Some (x, y)) s))) = Incorrect)
           = (\<not> windowHadAccurate s \<and> windowHadAnyPitch s)
       \<and> (kind (last (noteMarks (step ops v spb now (Some (x, y)) s))) = Missed)
           = (\<not> windowHadAccurate s \<and> \<not> windowHadAnyPitch s)"
proof -
  let ?k = "if windowHadAccurate s then Correct
            else if windowHadAnyPitch s then Incorrect else Missed"
  have "noteMarks (step ops v spb now (Some (x, y)) s)
          = noteMarks s @ [\<lparr>mark_x = x, mark_y = y, kind = ?k\<rparr>]"
    using assms by (simp add: step_def stopTransport_def setTimeout_step_def Let_def)
  then show ?thesis by simp
qed

text \<open>
  The theorem at a running transport whose window saw a pitch that was never accurate.
\<close>

theorem step_classification_witness:
  "osmdRef c3_state = Cursor 0 \<and> \<not> endReached demo_ops 0
   \<and> kind (last (noteMarks (step demo_ops demo_view 1 1000 (Some (10, 20)) c3_state)))
       = Incorrect"
proof -
  have h1: "osmdRef c3_state = Cursor 0"
    by (simp add: c3_state_def demo_state_def)
  have h2: "\<not> endReached demo_ops 0"
    by (simp add: demo_ops_def)
  have "\<not> windowHadAccurate c3_state \<and> windowHadAnyPitch c3_state"
    by (simp add: c3_state_def demo_state_def)
  with step_classification [OF h1 h2, where v = demo_view and spb = 1 and now = 1000
      and x = 10 and y = 20] h1 h2
  show ?thesis by simp
qed

subsection \<open>Dynamic tempo\<close>

text \<open>
  What \<open>updateDynamicTempo\<close> computes when the render it holds has dynamic tempo enabled:
  the two counters move with the beats, and the new tempo is taken from the
  \<open>currentBpm\<close> and \<open>bpm\<close> of that render, not from the tempo in force.
\<close>

lemma updateDynamicTempo_view:
  assumes "r_dynamicTempoEnabled v"
  shows "consecutiveErrors (updateDynamicTempo v wasAccurate now s)
           = (if wasAccurate then 0 else consecutiveErrors s + 1)
       \<and> lastErrorTime (updateDynamicTempo v wasAccurate now s)
           = (if wasAccurate then lastErrorTime s else now)
       \<and> currentBpm (updateDynamicTempo v wasAccurate now s)
           = (if \<not> wasAccurate \<and> consecutiveErrors s + 1 \<ge> 2 then max 40 (r_currentBpm v - 8)
              else if wasAccurate \<and> now - lastErrorTime s > 5000
                      \<and> min (r_bpm v) (r_currentBpm v + 2) \<noteq> r_currentBpm v
              then min (r_bpm v) (r_currentBpm v + 2)
              else currentBpm s)"
  using assms by (simp add: updateDynamicTempo_def Let_def)

lemma ensureCursorOnNote_on_note:
  "notesUnderCursor ops c \<noteq> [] \<Longrightarrow> ensureCursorOnNote ops c = c"
  by (simp add: ensureCursorOnNote_def numeral_eq_Suc)

lemma c4_started_fields:
  "osmdRef c4_started = Cursor 0" "currentStepIndex c4_started = 0"
  "scoreMidiSequence c4_started = [plainElement 69, plainElement 71, plainElement 72]"
  "windowHadAccurate c4_started = False" "windowHadAnyPitch c4_started = False"
  "consecutiveErrors c4_started = 0" "currentBpm c4_started = 80"
  "noteMarks c4_started = []" "isTransportRunning c4_started = True"
  by (simp_all add: c4_started_def c4_state_def c4_view_def demo_state_def demo_ops_def
      startTransport_def setTimeout_step_def ensureCursorOnNote_on_note Let_def)

lemma c4_beat1_fields:
  "osmdRef c4_beat1 = Cursor 1" "currentStepIndex c4_beat1 = 1"
  "scoreMidiSequence c4_beat1 = [plainElement 69, plainElement 71, plainElement 72]"
  "windowHadAccurate c4_beat1 = False" "windowHadAnyPitch c4_beat1 = False"
  "consecutiveErrors c4_beat1 = 1" "currentBpm c4_beat1 = 80"
  "map kind (noteMarks c4_beat1) = [Missed]"
  by (simp_all add: c4_beat1_def c4_started_fields c4_view_def demo_ops_def
      step_def updateDynamicTempo_def setTimeout_step_def ensureCursorOnNote_on_note Let_def)

lemma c4_beat2_fields:
  "osmdRef c4_beat2 = Cursor 2" "currentStepIndex c4_beat2 = 2"
  "scoreMidiSequence c4_beat2 = [plainElement 69, plainElement 71, plainElement 72]"
  "windowHadAccurate c4_beat2 = False" "windowHadAnyPitch c4_beat2 = False"
  "consecutiveErrors c4_beat2 = 2" "currentBpm c4_beat2 = 72"
  "map kind (noteMarks c4_beat2) = [Missed, Missed]"
  by (simp_all add: c4_beat2_def c4_beat1_fields c4_view_def demo_ops_def
      step_def updateDynamicTempo_def setTimeout_step_def ensureCursorOnNote_on_note Let_def)

lemma c4_beat3_fields:
  "consecutiveErrors c4_beat3 = 3" "currentBpm c4_beat3 = 72"
  "map kind (noteMarks c4_beat3) = [Missed, Missed, Missed]"
  by (simp_all add: c4_beat3_def c4_beat2_fields c4_view_def demo_ops_def
      step_def updateDynamicTempo_def stopTransport_def Let_def)

text \<open>
  C4 fails on the code. In the run at 80 BPM the second beat without a correct pitch slows
  the tempo to 72, as the claim says; the third one, with \<open>consecutiveErrors\<close> at 3, leaves
  it at 72, where the claim gives \<open>max 40 (72 - 8) = 64\<close>: the \<open>updateDynamicTempo\<close> that
  the step holds still sees the \<open>currentBpm\<close> of the start, 80.
\<close>

theorem updateDynamicTempo_stale_run:
  "r_dynamicTempoEnabled c4_view
   \<and> dynamicTempoEnabled c4_state \<and> viewOf c4_state = c4_view
   \<and> currentBpm c4_started = 80
   \<and> map kind (noteMarks c4_beat3) = [Missed, Missed, Missed]
   \<and> consecutiveErrors c4_beat1 = 1 \<and> currentBpm c4_beat1 = 80
   \<and> consecutiveErrors c4_beat2 = 2 \<and> currentBpm c4_beat2 = 72
   \<and> consecutiveErrors c4_beat3 = 3 \<and> currentBpm c4_beat3 = 72
   \<and> currentBpm c4_beat3 \<noteq> max 40 (currentBpm c4_beat2 - 8)"
proof -
  have "r_dynamicTempoEnabled c4_view \<and> dynamicTempoEnabled c4_state \<and> viewOf c4_state = c4_view"
    by (simp add: c4_view_def c4_state_def demo_state_def viewOf_def)
  then show ?thesis
    by (simp add: c4_started_fields c4_beat1_fields c4_beat2_fields c4_beat3_fields)
qed

subsection \<open>Starting the transport\<close>

text \<open>
  C5, as stated, fails: with dynamic tempo never enabled and 80 typed into the BPM field, a
  start leaves \<open>currentBpm\<close> at 64 against a base of 80.
\<close>

theorem startTransport_reset_counterexample:
  "\<not> dynamicTempoEnabled c5_state \<and> \<not> r_dynamicTempoEnabled c5_view
   \<and> \<not> isTransportRunning c5_state
   \<and> isTransportRunning (startTransport demo_ops c5_view (15 / 16) 0 c5_state)
   \<and> currentBpm (startTransport demo_ops c5_view (15 / 16) 0 c5_state) = 64
   \<and> bpm (startTransport demo_ops c5_view (15 / 16) 0 c5_state) = 80
   \<and> \<not> (currentBpm (startTransport demo_ops c5_view (15 / 16) 0 c5_state)
            = bpm (startTransport demo_ops c5_view (15 / 16) 0 c5_state)
          \<and> consecutiveErrors (startTransport demo_ops c5_view (15 / 16) 0 c5_state) = 0)"
  by (simp add: startTransport_def setTimeout_step_def c5_state_def c5_view_def
      demo_state_def Let_def)

text \<open>
  C5, amended. A start (the callback does not see the transport running, and a cursor is at
  hand) marks the transport running. When the \<open>dynamicTempoEnabled\<close> and the \<open>bpm\<close>
  that the callback holds are those of the state: if dynamic tempo is enabled the start
  resets \<open>currentBpm\<close> to \<open>bpm\<close>, \<open>consecutiveErrors\<close> to 0 and \<open>lastErrorTime\<close> to 0; if
  it is disabled the start leaves the three as they were.
\<close>

theorem startTransport_reset:
  assumes "\<not> r_isTransportRunning v" and "osmdRef s = Cursor c"
    and "r_dynamicTempoEnabled v = dynamicTempoEnabled s" and "r_bpm v = bpm s"
  shows "isTransportRunning (startTransport ops v spb now s)
       \<and> bpm (startTransport ops v spb now s) = bpm s
       \<and> (if dynamicTempoEnabled s
          then currentBpm (startTransport ops v spb now s) = bpm s
             \<and> consecutiveErrors (startTransport ops v spb now s) = 0
             \<and> lastErrorTime (startTransport ops v spb now s) = 0
          else currentBpm (startTransport ops v spb now s) = currentBpm s
             \<and> consecutiveErrors (startTransport ops v spb now s) = consecutiveErrors s
             \<and> lastErrorTime (startTransport ops v spb now s) = lastErrorTime s)"
  using assms by (simp add: startTransport_def setTimeout_step_def Let_def)

text \<open>
  The theorem at a start after a run that had slowed down to 72 with three errors, with
  dynamic tempo enabled and the callback up to date: the tempo is back at 80.
\<close>

theorem startTransport_reset_witness:
  "\<not> r_isTransportRunning (viewOf c5_slowed) \<and> osmdRef c5_slowed = Cursor 0
   \<and> r_dynamicTempoEnabled (viewOf c5_slowed) = dynamicTempoEnabled c5_slowed
   \<and> r_bpm (viewOf c5_slowed) = bpm c5_slowed
   \<and> dynamicTempoEnabled c5_slowed \<and> currentBpm c5_slowed = 72
   \<and> isTransportRunning (startTransport demo_ops (viewOf c5_slowed) (3 / 4) 0 c5_slowed)
   \<and> currentBpm (startTransport demo_ops (viewOf c5_slowed) (3 / 4) 0 c5_slowed) = 80
   \<and> consecutiveErrors (startTransport demo_ops (viewOf c5_slowed) (3 / 4) 0 c5_slowed) = 0"
proof -
  have h1: "\<not> r_isTransportRunning (viewOf c5_slowed)"
    and h2: "osmdRef c5_slowed = Cursor 0"
    and h3: "r_dynamicTempoEnabled (viewOf c5_slowed) = dynamicTempoEnabled c5_slowed"
    and h4: "r_bpm (viewOf c5_slowed) = bpm c5_slowed"
    and h5: "dynamicTempoEnabled c5_slowed" and h6: "bpm c5_slowed = 80"
    and h7: "currentBpm c5_slowed = 72"
    by (simp_all add: viewOf_def c5_slowed_def demo_state_def)
  from startTransport_reset [OF h1 h2 h3 h4, where ops = demo_ops and spb = "3 / 4" and now = 0]
    h1 h2 h3 h4 h5 h6 h7
  show ?thesis by simp
qed

subsection \<open>Scheduling the next step\<close>




subsection \<open>Starting on an empty sequence\<close>

text \<open>
  C7, as stated, fails: on an empty sequence a start changes the state, marks the
  transport running, arms a timer and leaves the status line alone; the step that follows
  arms the next timer.
\<close>

theorem startTransport_empty_counterexample:
  "scoreMidiSequence c7_state = []
   \<and> isTransportRunning (startTransport demo_ops demo_view 1 0 c7_state)
   \<and> schedulerId (startTransport demo_ops demo_view 1 0 c7_state) = Some 1000
   \<and> status (startTransport demo_ops demo_view 1 0 c7_state) = status c7_state
   \<and> startTransport demo_ops demo_view 1 0 c7_state \<noteq> c7_state
   \<and> schedulerId
         (step demo_ops demo_view 1 1000 None (startTransport demo_ops demo_view 1 0 c7_state))
       = Some 2000"
proof -
  have st: "startTransport demo_ops demo_view 1 0 c7_state
              = c7_state\<lparr>isTransportRunning := True, isTransportRunningRef := True,
                         schedulerId := Some 1000\<rparr>"
    by (simp add: startTransport_def setTimeout_step_def ensureCursorOnNote_def
        numeral_eq_Suc c7_state_def demo_state_def demo_view_def demo_ops_def Let_def)
  have ne: "c7_state\<lparr>isTransportRunning := True, isTransportRunningRef := True,
                     schedulerId := Some 1000\<rparr> \<noteq> c7_state"
    by (simp add: c7_state_def demo_state_def)
  show ?thesis
    unfolding st using ne
    by (simp add: step_def setTimeout_step_def c7_state_def demo_state_def demo_ops_def Let_def)
qed

text \<open>
  C7, amended. With an empty sequence and a cursor at hand, a start is not refused: unless
  the callback sees the transport running (then nothing changes), it marks the transport
  running and arms the first timer; the status line is not written. A step on the empty
  sequence keeps the index and the status line, and arms the next timer unless the
  cursor has reached the end.
\<close>

theorem startTransport_empty:
  assumes "scoreMidiSequence s = []" and "osmdRef s = Cursor c"
  shows "(if r_isTransportRunning v then startTransport ops v spb now s = s
          else isTransportRunning (startTransport ops v spb now s)
             \<and> isTransportRunningRef (startTransport ops v spb now s)
             \<and> schedulerId (startTransport ops v spb now s) = Some (now + spb * 1000))
       \<and> status (startTransport ops v spb now s) = status s
       \<and> (if endReached ops c then schedulerId (step ops v spb now markPos s) = None
          else schedulerId (step ops v spb now markPos s) = Some (now + spb * 1000))
       \<and> currentStepIndex (step ops v spb now markPos s) = currentStepIndex s
       \<and> status (step ops v spb now markPos s) = status s"
proof -
  have a: "(if r_isTransportRunning v then startTransport ops v spb now s = s
          else isTransportRunning (startTransport ops v spb now s)
             \<and> isTransportRunningRef (startTransport ops v spb now s)
             \<and> schedulerId (startTransport ops v spb now s) = Some (now + spb * 1000))
       \<and> status (startTransport ops v spb now s) = status s"
    using assms by (simp add: startTransport_def setTimeout_step_def Let_def)
  have b: "(if endReached ops c then schedulerId (step ops v spb now markPos s) = None
          else schedulerId (step ops v spb now markPos s) = Some (now + spb * 1000))
       \<and> currentStepIndex (step ops v spb now markPos s) = currentStepIndex s
       \<and> status (step ops v spb now markPos s) = status s"
  proof (cases markPos)
    case None
    with assms show ?thesis
      by (simp add: step_def setTimeout_step_def stopTransport_def Let_def)
  next
    case (Some p)
    with assms show ?thesis
      by (cases p) (simp add: step_def setTimeout_step_def stopTransport_def Let_def)
  qed
  from a b show ?thesis by simp
qed

text \<open>
  The theorem at the empty score.
\<close>

theorem startTransport_empty_witness:
  "scoreMidiSequence c7_state = [] \<and> osmdRef c7_state = Cursor 0
   \<and> \<not> r_isTransportRunning demo_view \<and> \<not> endReached demo_ops 0
   \<and> isTransportRunning (startTransport demo_ops demo_view 1 0 c7_state)
   \<and> schedulerId (startTransport demo_ops demo_view 1 0 c7_state) = Some 1000
   \<and> schedulerId (step demo_ops demo_view 1 1000 None c7_state) = Some 2000"
proof -
  have h1: "scoreMidiSequence c7_state = []" and h2: "osmdRef c7_state = Cursor 0"
    by (simp_all add: c7_state_def demo_state_def)
  have h3: "\<not> r_isTransportRunning demo_view"
    by (simp add: demo_view_def)
  have h4: "\<not> endReached demo_ops 0"
    by (simp add: demo_ops_def)
  from startTransport_empty [OF h1 h2, where ops = demo_ops and v = demo_view and spb = 1
      and now = 0 and markPos = None]
    startTransport_empty [OF h1 h2, where ops = demo_ops and v = demo_view and spb = 1
      and now = 1000 and markPos = None] h1 h2 h3 h4
  show ?thesis by simp
qed

subsection \<open>The start gate\<close>

text \<open>
  The worked run: the detector reports a clear A4 against the target A4, at 1000 ms and
  again at 1250 ms.
\<close>

lemma isAccurate_demo: "isAccurate demo_ops demo_view a440 demo_state"
  by (simp add: isAccurate_def withinThreshold_def rawCents_def gatingTargetHz_def
      effectiveMidi_def selectPreferredNote_def candidates_def List.map_filter_simps
      midiSeqTarget_def getGradingThreshold_def correctDuringTransportCents_def
      hasPitch_def clarityThreshold_def computeCentsOffset_def midiToFrequency_def
      a4FrequencyHz_def VIOLIN_MIN_MIDI_def VIOLIN_MAX_MIDI_def
      a440_def demo_state_def demo_view_def demo_ops_def plainElement_def Let_def)

lemma effectiveMidi_demo: "effectiveMidi demo_ops demo_view demo_state = Some 69"
  by (simp add: effectiveMidi_def selectPreferredNote_def candidates_def
      List.map_filter_simps VIOLIN_MIN_MIDI_def VIOLIN_MAX_MIDI_def
      demo_state_def demo_view_def demo_ops_def)

lemma effectiveMidi_c8: "effectiveMidi demo_ops demo_view c8_state = Some 69"
  by (simp add: c8_state_def effectiveMidi_demo)

lemma tick_demo_1000: "tick demo_ops demo_view demo_view 1 a440 1000 demo_state = c8_state"
proof -
  have i: "\<not> isTransportRunningRef demo_state" and t: "targetInfo demo_state = Some 69"
    by (simp_all add: demo_state_def)
  have "tick demo_ops demo_view demo_view 1 a440 1000 demo_state = startGate demo_ops demo_view 1 True 1000 demo_state"
    by (simp add: tick_def Let_def isAccurate_demo effectiveMidi_demo
        gradeWindow_idle [OF i] syncIdleTarget_same [OF t])
  also have "\<dots> = c8_state"
    by (simp add: startGate_def c8_state_def demo_state_def Let_def)
  finally show ?thesis .
qed

lemma tick_c8_1250: "tick demo_ops demo_view demo_view 1 a440 1250 c8_state = c8_state"
proof -
  have i: "\<not> isTransportRunningRef c8_state" and t: "targetInfo c8_state = Some 69"
    by (simp_all add: c8_state_def demo_state_def)
  have a: "isAccurate demo_ops demo_view a440 c8_state"
    by (simp add: c8_state_def isAccurate_demo)
  have "tick demo_ops demo_view demo_view 1 a440 1250 c8_state = startGate demo_ops demo_view 1 True 1250 c8_state"
    by (simp add: tick_def Let_def a effectiveMidi_c8
        gradeWindow_idle [OF i] syncIdleTarget_same [OF t])
  also have "\<dots> = c8_state"
    by (simp add: startGate_def c8_state_def demo_state_def Let_def)
  finally show ?thesis .
qed

text \<open>
  C8, as stated, fails: after an accurate run that has lasted exactly 250 ms (samples at
  1000 and at 1250, both within tolerance) the transport is not running, the component
  still awaits the first correct note, and no timer is armed.
\<close>

theorem tick_gate_counterexample:
  "awaitingFirstCorrectRef demo_state \<and> \<not> isTransportRunning demo_state
   \<and> stableForMs demo_state = 0
   \<and> isAccurate demo_ops demo_view a440 demo_state
   \<and> isAccurate demo_ops demo_view a440 (tick demo_ops demo_view demo_view 1 a440 1000 demo_state)
   \<and> (1250 :: real) - 1000 \<ge> 250
   \<and> \<not> isTransportRunning
         (tick demo_ops demo_view demo_view 1 a440 1250
           (tick demo_ops demo_view demo_view 1 a440 1000 demo_state))
   \<and> awaitingFirstCorrectRef
         (tick demo_ops demo_view demo_view 1 a440 1250
           (tick demo_ops demo_view demo_view 1 a440 1000 demo_state))
   \<and> schedulerId
         (tick demo_ops demo_view demo_view 1 a440 1250
           (tick demo_ops demo_view demo_view 1 a440 1000 demo_state)) = None"
proof -
  have "isAccurate demo_ops demo_view a440 c8_state"
    by (simp add: c8_state_def isAccurate_demo)
  moreover have "awaitingFirstCorrectRef demo_state \<and> \<not> isTransportRunning demo_state
      \<and> stableForMs demo_state = 0"
    by (simp add: demo_state_def)
  moreover have "\<not> isTransportRunning c8_state \<and> awaitingFirstCorrectRef c8_state
      \<and> schedulerId c8_state = None"
    by (simp add: c8_state_def demo_state_def)
  ultimately show ?thesis
    by (simp add: tick_demo_1000 tick_c8_1250 isAccurate_demo)
qed

text \<open>
  C8, amended. While the transport is not running, in the state and in the render that the
  start callback holds, and a cursor is at hand, one sample starts the transport exactly
  when it is accurate (the component awaits the first correct
  note and the pitch is within the tolerance of the target) and strictly more than 250 ms
  have passed since the start of the streak, which is the time of this sample when the
  streak was empty. The start clears \<open>awaitingFirstCorrectRef\<close> and arms the first timer.
  An accurate sample keeps the start of the streak (or sets it, when empty); any other
  sample empties the streak.
\<close>

theorem tick_gate:
  assumes "\<not> isTransportRunning s" and "\<not> r_isTransportRunning sv"
    and "osmdRef s = Cursor c"
  shows "isTransportRunning (tick ops lv sv spb smp t s)
           = (isAccurate ops lv smp s
              \<and> t - (if stableForMs s = 0 then t else stableForMs s) > 250)
       \<and> awaitingFirstCorrectRef (tick ops lv sv spb smp t s)
           = (awaitingFirstCorrectRef s
              \<and> \<not> (isAccurate ops lv smp s
                    \<and> t - (if stableForMs s = 0 then t else stableForMs s) > 250))
       \<and> stableForMs (tick ops lv sv spb smp t s)
           = (if isAccurate ops lv smp s
              then (if stableForMs s = 0 then t else stableForMs s)
              else 0)
       \<and> schedulerId (tick ops lv sv spb smp t s)
           = (if isAccurate ops lv smp s
                 \<and> t - (if stableForMs s = 0 then t else stableForMs s) > 250
              then Some (t + spb * 1000)
              else schedulerId s)"
proof -
  define s2 where "s2 = syncIdleTarget (effectiveMidi ops lv s) (gradeWindow ops lv smp s)"
  have k: "isTransportRunning s2 = isTransportRunning s" "osmdRef s2 = osmdRef s"
    "stableForMs s2 = stableForMs s" "awaitingFirstCorrectRef s2 = awaitingFirstCorrectRef s"
    "schedulerId s2 = schedulerId s"
    by (simp_all add: s2_def syncIdleTarget_def gradeWindow_def Let_def split: option.split)
  have aw: "isAccurate ops lv smp s \<Longrightarrow> awaitingFirstCorrectRef s"
    by (simp add: isAccurate_def)
  have tk: "tick ops lv sv spb smp t s = startGate ops sv spb (isAccurate ops lv smp s) t s2"
    by (simp add: tick_def s2_def Let_def)
  show ?thesis
  proof (cases "isAccurate ops lv smp s")
    case False
    then show ?thesis
      by (simp add: tk startGate_def k assms)
  next
    case acc: True
    show ?thesis
    proof (cases "t - (if stableForMs s = 0 then t else stableForMs s) > 250")
      case False
      with acc aw show ?thesis
        by (auto simp: tk startGate_def k assms Let_def split: if_splits)
    next
      case True
      with acc aw show ?thesis
        by (auto simp: tk startGate_def k assms Let_def startTransport_starts split: if_splits)
    qed
  qed
qed

text \<open>
  The theorem at a streak that began at 1000: a sample at 1251 starts the transport, a
  sample at 1250 does not.
\<close>

theorem tick_gate_witness:
  "\<not> isTransportRunning c8_state \<and> \<not> r_isTransportRunning demo_view
   \<and> osmdRef c8_state = Cursor 0
   \<and> isAccurate demo_ops demo_view a440 c8_state
   \<and> isTransportRunning (tick demo_ops demo_view demo_view 1 a440 1251 c8_state)
   \<and> \<not> awaitingFirstCorrectRef (tick demo_ops demo_view demo_view 1 a440 1251 c8_state)
   \<and> schedulerId (tick demo_ops demo_view demo_view 1 a440 1251 c8_state) = Some 2251
   \<and> \<not> isTransportRunning (tick demo_ops demo_view demo_view 1 a440 1250 c8_state)"
proof -
  have h1: "\<not> isTransportRunning c8_state" and h2: "osmdRef c8_state = Cursor 0"
    and h3: "stableForMs c8_state = 1000"
    by (simp_all add: c8_state_def demo_state_def)
  have h4: "isAccurate demo_ops demo_view a440 c8_state"
    by (simp add: c8_state_def isAccurate_demo)
  have h0: "\<not> r_isTransportRunning demo_view"
    by (simp add: demo_view_def)
  from tick_gate [OF h1 h0 h2, where ops = demo_ops and lv = demo_view and spb = 1
      and smp = a440 and t = 1251]
    tick_gate [OF h1 h0 h2, where ops = demo_ops and lv = demo_view and spb = 1
      and smp = a440 and t = 1250] h1 h0 h2 h3 h4
  show ?thesis by simp
qed

subsection \<open>Jumping to measure 1\<close>

text \<open>
  C9, as stated, fails: with the sequence index at 2, a jump to measure 1 leaves it at 2.
\<close>

theorem jumpToMeasure_index_counterexample:
  "measureNumber c9_state = 1
   \<and> currentStepIndex c9_state = 2
   \<and> currentStepIndex (jumpToMeasure demo_ops c9_state) = 2
   \<and> currentStepIndex (jumpToMeasure demo_ops c9_state) \<noteq> 0"
  by (simp add: jumpToMeasure_def Let_def c9_state_def demo_state_def
      split: osmd_ref.split option.split)

text \<open>
  C9, amended. A jump never writes the sequence index \<open>currentStepIndexRef\<close>, nor the
  sequence: whatever the measure asked for and whatever the state before, the index keeps
  its value. All a jump writes is the OSMD cursor, the two measure numbers, the target and
  the status line.
\<close>

theorem jumpToMeasure_index:
  "currentStepIndex (jumpToMeasure ops s) = currentStepIndex s
   \<and> scoreMidiSequence (jumpToMeasure ops s) = scoreMidiSequence s
   \<and> jumpToMeasure ops s
       = s\<lparr>status := status (jumpToMeasure ops s),
            targetInfo := targetInfo (jumpToMeasure ops s),
            measureNumber := measureNumber (jumpToMeasure ops s),
            currentMeasure := currentMeasure (jumpToMeasure ops s),
            osmdRef := osmdRef (jumpToMeasure ops s)\<rparr>"
  by (simp add: jumpToMeasure_def Let_def split: osmd_ref.split option.split)

text \<open>
  Where the jump to measure 1 leaves the OSMD cursor: on the position that
  \<open>cursor.reset()\<close> gives, when that position lies in the first measure, has a note
  under it, and is not before the first note of the measure.
\<close>

lemma scanToMeasure_stay:
  assumes "currentMeasureIndex ops c + 1 = mn"
    and "case firstTs of
           None \<Rightarrow> True
         | Some ft \<Rightarrow> (case currentTimeStamp ops c of None \<Rightarrow> False | Some t \<Rightarrow> t \<ge> ft)"
  shows "scanToMeasure ops mn firstTs guard c = c"
  using assms by (cases guard) (simp_all add: Let_def)

lemma seekNoteInMeasure_stay:
  assumes "notesUnderCursor ops c \<noteq> []"
  shows "seekNoteInMeasure ops mn tries c = c"
  using assms by (cases tries) simp_all

lemma jumpToMeasure_first_position:
  assumes "osmdRef s = Cursor c0" and "measureNumber s = 1"
    and "currentMeasureIndex ops (cursor_reset ops c0) = 0"
    and "notesUnderCursor ops (cursor_reset ops c0) \<noteq> []"
    and "case getFirstNoteTimestampForMeasure (sourceMeasures s) 1 of
           None \<Rightarrow> True
         | Some ft \<Rightarrow>
             (case currentTimeStamp ops (cursor_reset ops c0) of
                None \<Rightarrow> False
              | Some t \<Rightarrow> t \<ge> ft)"
  shows "osmdRef (jumpToMeasure ops s) = Cursor (cursor_reset ops c0)
       \<and> measureNumber (jumpToMeasure ops s) = 1
       \<and> currentMeasure (jumpToMeasure ops s) = 1"
proof -
  have sc: "scanToMeasure ops 1 (getFirstNoteTimestampForMeasure (sourceMeasures s) 1) 4096
              (cursor_reset ops c0) = cursor_reset ops c0"
    using assms(3,5) by (intro scanToMeasure_stay) simp_all
  have sk: "seekNoteInMeasure ops 1 256 (cursor_reset ops c0) = cursor_reset ops c0"
    using assms(4) by (rule seekNoteInMeasure_stay)
  show ?thesis
    using assms(1,2,3)
    by (simp add: jumpToMeasure_def Let_def sc sk split: option.split)
qed

subsection \<open>The beat interval\<close>

text \<open>
  C10. \<open>sanitizeBpm\<close> maps the three non-finite numbers to 80 and every number to an
  integer from 20 to 240. So for every number \<open>secondsPerBeat\<close>, the rounded quotient, is
  finite and lies between 1/4 and 3, and the timer that is armed with it is due between
  250 and 3000 ms after \<open>now\<close>: the delay is never zero, negative or non-finite.
\<close>

theorem secondsPerBeat_range:
  "sanitizeBpm PosInf = 80 \<and> sanitizeBpm NegInf = 80 \<and> sanitizeBpm NaN = 80
   \<and> 20 \<le> sanitizeBpm raw \<and> sanitizeBpm raw \<le> 240
   \<and> (\<exists>v. secondsPerBeat raw = Fin v \<and> 1 / 4 \<le> v \<and> v \<le> 3
          \<and> (\<exists>d. schedulerId (setTimeout_step v now s) = Some d
                 \<and> now + 250 \<le> d \<and> d \<le> now + 3000))"
proof -
  have r: "20 \<le> sanitizeBpm raw \<and> sanitizeBpm raw \<le> 240"
    by (cases raw) (simp_all add: sanitizeBpm_def)
  then have "0 < (of_int (sanitizeBpm raw) :: real)"
    and "(of_int (sanitizeBpm raw) :: real) \<le> 240"
    and "20 \<le> (of_int (sanitizeBpm raw) :: real)"
    by simp_all
  then have "1 / 4 \<le> 60 / (of_int (sanitizeBpm raw) :: real)"
    and "60 / (of_int (sanitizeBpm raw) :: real) \<le> 3"
    by (simp_all add: field_simps)
  from fl_quarter_to_three [OF this] obtain v where
    v: "secondsPerBeat raw = Fin v" "1 / 4 \<le> v" "v \<le> 3"
    unfolding secondsPerBeat_def by blast
  have "schedulerId (setTimeout_step v now s) = Some (now + v * 1000)"
    by (simp add: setTimeout_step_def)
  moreover have "now + 250 \<le> now + v * 1000" and "now + v * 1000 \<le> now + 3000"
    using v(2,3) by simp_all
  ultimately have "\<exists>d. schedulerId (setTimeout_step v now s) = Some d
      \<and> now + 250 \<le> d \<and> d \<le> now + 3000"
    by blast
  with v r show ?thesis
    by (auto simp: sanitizeBpm_def)
qed

end
